theory Spec2Isabelle
  imports Main "HOL-Library.Word"
begin

section \<open>JavaScript strings and values\<close>

text \<open>
  A JavaScript string is a sequence of 16-bit code units (UTF-16). Every Chinese
  character of the literals in the source lies in the Basic Multilingual Plane and is
  one code unit; the literals are written below as lists of code units. \<open>asc\<close>
  turns an ASCII literal into a JavaScript string.
\<close>

type_synonym jsstring = "16 word list"

type_synonym bytes = "8 word list"

definition asc :: "string \<Rightarrow> jsstring" where
  "asc s = map of_char s"

text \<open>
  \<open>String.prototype.trim\<close> removes the code units of WhiteSpace and LineTerminator
  (ECMA-262) at both ends.
\<close>

definition isWhiteSpace :: "16 word \<Rightarrow> bool" where
  "isWhiteSpace c \<longleftrightarrow>
     c = 0x09 \<or> c = 0x0A \<or> c = 0x0B \<or> c = 0x0C \<or> c = 0x0D \<or> c = 0x20 \<or> c = 0xA0 \<or>
     c = 0x1680 \<or> (0x2000 \<le> c \<and> c \<le> 0x200A) \<or> c = 0x2028 \<or> c = 0x2029 \<or>
     c = 0x202F \<or> c = 0x205F \<or> c = 0x3000 \<or> c = 0xFEFF"

definition trim :: "jsstring \<Rightarrow> jsstring" where
  "trim s = rev (dropWhile isWhiteSpace (rev (dropWhile isWhiteSpace s)))"

fun startsWith :: "jsstring \<Rightarrow> jsstring \<Rightarrow> bool" where
  "startsWith s [] = True"
| "startsWith [] (c # cs) = False"
| "startsWith (x # xs) (c # cs) = (x = c \<and> startsWith xs cs)"

text \<open>\<open>s.includes(needle)\<close>: \<open>needle\<close> occurs in \<open>s\<close> at some position.\<close>

fun str_includes :: "jsstring \<Rightarrow> jsstring \<Rightarrow> bool" where
  "str_includes [] needle = (needle = [])"
| "str_includes (x # xs) needle = (startsWith (x # xs) needle \<or> str_includes xs needle)"

text \<open>\<open>Array.prototype.join\<close> on an array of strings (and the same on byte strings).\<close>

fun join :: "'a list \<Rightarrow> 'a list list \<Rightarrow> 'a list" where
  "join sep [] = []"
| "join sep [x] = x"
| "join sep (x # y # ys) = x @ sep @ join sep (y # ys)"

text \<open>
  A property of the appointment record read at run time is a string or, when the
  object does not carry it, \<open>undefined\<close> (\<open>None\<close>). \<open>truthy\<close> is the test of
  \<open>if (v)\<close>, \<open>!v\<close> and \<open>v || w\<close>; \<open>toString\<close> is the conversion a template literal
  and \<open>URLSearchParams\<close> apply.
\<close>

type_synonym jsvalue = "jsstring option"

definition truthy :: "jsvalue \<Rightarrow> bool" where
  "truthy v = (case v of None \<Rightarrow> False | Some s \<Rightarrow> s \<noteq> [])"

definition toString :: "jsvalue \<Rightarrow> jsstring" where
  "toString v = (case v of None \<Rightarrow> asc ''undefined'' | Some s \<Rightarrow> s)"

text \<open>
  A value that is thrown or that rejects a promise: an \<open>Error\<close> object with its
  message, or something that is not an instance of \<open>Error\<close> (the \<open>ProgressEvent\<close> of
  a failed \<open>FileReader\<close>).
\<close>

datatype thrown = JsError jsstring | NotAnError

section \<open>The appointment record (\<open>CleaningScheduleData\<close>)\<close>

record CleaningScheduleData =
  area :: jsvalue
  name :: jsvalue
  phone :: jsvalue
  date :: jsvalue
  startTime :: jsvalue
  endTime :: jsvalue
  address :: jsvalue
  "notes" :: jsvalue

section \<open>The platform\<close>

text \<open>
  What the browser, the JavaScript engine and the remote service contribute is a
  parameter of the model:
  \<^item> \<open>apiKey\<close> is \<open>process.env.API_KEY\<close> (\<open>None\<close> when unset);
  \<^item> \<open>generateContent\<close> is the remote call, which rejects or returns the response
    text;
  \<^item> \<open>jsonParse\<close> is \<open>JSON.parse\<close> followed by the unchecked cast
    \<open>as CleaningScheduleData\<close>: a \<open>SyntaxError\<close> with its message, or the parsed
    object. The response schema gives every property the type string and lists no
    required property, so a property of the parsed object is a string or absent;
  \<^item> \<open>readAsDataURL\<close> is the \<open>FileReader\<close> (\<open>None\<close> when it fires \<open>onerror\<close>);
  \<^item> \<open>localTZA\<close> is the offset in milliseconds of the browser's time zone at a
    local time value (ECMA-262 LocalTZA(t, false));
  \<^item> \<open>dateParseOther\<close> is \<open>Date.parse\<close> on the strings that are not of the form
    \<open>YYYY-MM-DDTHH:mm\<close> with a date of the calendar and a time of the day, where
    engines differ (\<open>None\<close> is NaN).
\<close>

datatype part = TextPart jsstring | InlineData jsvalue jsstring

datatype remote_result = Rejected thrown | Response jsstring

record jsfile =
  fileName :: jsstring
  fileType :: jsstring
  fileContents :: bytes

record platform =
  apiKey :: jsvalue
  generateContent :: "part list \<Rightarrow> remote_result"
  jsonParse :: "jsstring \<Rightarrow> jsstring + CleaningScheduleData"
  readAsDataURL :: "jsfile \<Rightarrow> jsstring option"
  localTZA :: "int \<Rightarrow> int"
  dateParseOther :: "jsstring \<Rightarrow> int option"

section \<open>The extraction client (\<open>services/geminiService\<close>)\<close>

definition userQuery :: jsstring where
  "userQuery = asc ''Please consolidate and extract all customer cleaning appointment information from these images.''"

definition err_key_not_configured :: jsstring where
  "err_key_not_configured = asc ''Gemini API key is not configured.''"

definition err_no_content :: jsstring where
  "err_no_content = asc ''AI did not return any content.''"

definition err_key_not_valid :: jsstring where
  "err_key_not_valid =
     asc ''The provided Gemini API key is not valid. Please check your configuration.''"

definition err_generic :: jsstring where
  "err_generic =
     asc ''Failed to process images with AI. The AI may be temporarily unavailable or the request was blocked.''"

text \<open>
  The body of the \<open>try\<close> block: the request carries the user query followed by the
  image parts (the model name, the system instruction and the response schema are the
  same in every request and are left out); the response text is trimmed, an empty text
  throws, and the text is parsed.
\<close>

definition extract_try :: "platform \<Rightarrow> part list \<Rightarrow> thrown + CleaningScheduleData" where
  "extract_try p imageParts =
     (case generateContent p (TextPart userQuery # imageParts) of
        Rejected e \<Rightarrow> Inl e
      | Response responseText \<Rightarrow>
          (let jsonText = trim responseText in
           if jsonText = [] then Inl (JsError err_no_content)
           else (case jsonParse p jsonText of
                   Inl syntaxError \<Rightarrow> Inl (JsError syntaxError)
                 | Inr parsedData \<Rightarrow> Inr parsedData)))"

text \<open>The \<open>catch\<close> block: whatever was thrown in the \<open>try\<close> block is replaced.\<close>

definition extract_catch :: "thrown \<Rightarrow> thrown" where
  "extract_catch e =
     (case e of
        JsError m \<Rightarrow>
          if str_includes m (asc ''API key not valid'') then JsError err_key_not_valid
          else JsError err_generic
      | NotAnError \<Rightarrow> JsError err_generic)"

definition extractScheduleFromImages ::
  "platform \<Rightarrow> part list \<Rightarrow> thrown + CleaningScheduleData" where
  "extractScheduleFromImages p imageParts =
     (if \<not> truthy (apiKey p) then Inl (JsError err_key_not_configured)
      else (case extract_try p imageParts of
              Inl e \<Rightarrow> Inl (extract_catch e)
            | Inr parsedData \<Rightarrow> Inr parsedData))"

section \<open>Dates (ECMA-262, Date objects)\<close>

text \<open>
  A time value is a number of milliseconds since the epoch, in UTC. The definitions
  follow ECMA-262: \<open>DayFromYear\<close>, \<open>InLeapYear\<close>, \<open>MakeTime\<close>, \<open>MakeDay\<close>,
  \<open>MakeDate\<close>, \<open>UTC\<close> and \<open>TimeClip\<close>; months are numbered from 0 as there.
\<close>

definition msPerDay :: int where
  "msPerDay = 86400000"

definition DayFromYear :: "int \<Rightarrow> int" where
  "DayFromYear y =
     365 * (y - 1970) + (y - 1969) div 4 - (y - 1901) div 100 + (y - 1601) div 400"

definition InLeapYear :: "int \<Rightarrow> bool" where
  "InLeapYear y \<longleftrightarrow> (y mod 4 = 0 \<and> y mod 100 \<noteq> 0) \<or> y mod 400 = 0"

text \<open>The number of days of the year before month \<open>m\<close> (0 = January, 12 = year's end).\<close>

definition monthStart :: "bool \<Rightarrow> int \<Rightarrow> int" where
  "monthStart leap m =
     (if m \<le> 0 then 0 else if m = 1 then 31
      else (if leap then 1 else 0) +
        (if m = 2 then 59 else if m = 3 then 90 else if m = 4 then 120
         else if m = 5 then 151 else if m = 6 then 181 else if m = 7 then 212
         else if m = 8 then 243 else if m = 9 then 273 else if m = 10 then 304
         else if m = 11 then 334 else 365))"

definition DaysInMonth :: "int \<Rightarrow> int \<Rightarrow> int" where
  "DaysInMonth y m = monthStart (InLeapYear y) (m + 1) - monthStart (InLeapYear y) m"

definition MakeTime :: "int \<Rightarrow> int \<Rightarrow> int \<Rightarrow> int \<Rightarrow> int" where
  "MakeTime h mi s ms = h * 3600000 + mi * 60000 + s * 1000 + ms"

definition MakeDay :: "int \<Rightarrow> int \<Rightarrow> int \<Rightarrow> int" where
  "MakeDay y m dt = DayFromYear y + monthStart (InLeapYear y) m + dt - 1"

definition MakeDate :: "int \<Rightarrow> int \<Rightarrow> int" where
  "MakeDate day time = day * msPerDay + time"

definition UTC :: "platform \<Rightarrow> int \<Rightarrow> int" where
  "UTC p t = t - localTZA p t"

definition TimeClip :: "int \<Rightarrow> int option" where
  "TimeClip t = (if \<bar>t\<bar> > 8640000000000000 then None else Some t)"

text \<open>
  \<open>YearFromDay\<close> is the year \<open>y\<close> with \<open>DayFromYear y \<le> day < DayFromYear (y + 1)\<close>
  (ECMA-262 YearFromTime): an estimate from the mean length of a year, corrected by
  at most one year.
\<close>

definition YearFromDay :: "int \<Rightarrow> int" where
  "YearFromDay day =
     (let e = 1970 + (400 * day) div 146097 in
      if DayFromYear (e + 1) \<le> day then e + 1
      else if day < DayFromYear e then e - 1
      else e)"

definition MonthFromDay :: "bool \<Rightarrow> int \<Rightarrow> int" where
  "MonthFromDay leap dayWithinYear =
     (if dayWithinYear < monthStart leap 1 then 0
      else if dayWithinYear < monthStart leap 2 then 1
      else if dayWithinYear < monthStart leap 3 then 2
      else if dayWithinYear < monthStart leap 4 then 3
      else if dayWithinYear < monthStart leap 5 then 4
      else if dayWithinYear < monthStart leap 6 then 5
      else if dayWithinYear < monthStart leap 7 then 6
      else if dayWithinYear < monthStart leap 8 then 7
      else if dayWithinYear < monthStart leap 9 then 8
      else if dayWithinYear < monthStart leap 10 then 9
      else if dayWithinYear < monthStart leap 11 then 10
      else 11)"

subsection \<open>Decimal digits\<close>

definition isDigit :: "16 word \<Rightarrow> bool" where
  "isDigit c \<longleftrightarrow> 0x30 \<le> c \<and> c \<le> 0x39"

text \<open>The value of a string of decimal digits; \<open>None\<close> when a code unit is no digit.\<close>

fun digitsValue :: "nat \<Rightarrow> jsstring \<Rightarrow> nat option" where
  "digitsValue acc [] = Some acc"
| "digitsValue acc (c # cs) =
     (if isDigit c then digitsValue (10 * acc + (unat c - 48)) cs else None)"

text \<open>\<open>pad k n\<close>: the last \<open>k\<close> decimal digits of \<open>n\<close>, with leading zeros.\<close>

fun pad :: "nat \<Rightarrow> nat \<Rightarrow> jsstring" where
  "pad 0 n = []"
| "pad (Suc k) n = pad k (n div 10) @ [0x30 + of_nat (n mod 10)]"

subsection \<open>\<open>new Date(string)\<close>\<close>

text \<open>
  The fields of a string of the form \<open>YYYY-MM-DDTHH:mm\<close>: year, month (from 1), day,
  hour and minute.
\<close>

definition isoFields :: "jsstring \<Rightarrow> (int \<times> int \<times> int \<times> int \<times> int) option" where
  "isoFields s =
     (if length s = 16 \<and> s ! 4 = 0x2D \<and> s ! 7 = 0x2D \<and> s ! 10 = 0x54 \<and> s ! 13 = 0x3A then
        (case (digitsValue 0 (take 4 s), digitsValue 0 (take 2 (drop 5 s)),
               digitsValue 0 (take 2 (drop 8 s)), digitsValue 0 (take 2 (drop 11 s)),
               digitsValue 0 (take 2 (drop 14 s))) of
           (Some y, Some mo, Some d, Some h, Some mi) \<Rightarrow>
             Some (int y, int mo, int d, int h, int mi)
         | _ \<Rightarrow> None)
      else None)"

text \<open>
  \<open>Date.parse\<close>: a string \<open>YYYY-MM-DDTHH:mm\<close> that names a day of the calendar and a
  time of the day is a local time (a date-time form without offset), converted to
  UTC; every other string is left to the engine.
\<close>

definition dateParse :: "platform \<Rightarrow> jsstring \<Rightarrow> int option" where
  "dateParse p s =
     (case isoFields s of
        Some (y, mo, d, h, mi) \<Rightarrow>
          if 1 \<le> mo \<and> mo \<le> 12 \<and> 1 \<le> d \<and> d \<le> DaysInMonth y (mo - 1) \<and> h \<le> 23 \<and> mi \<le> 59
          then TimeClip (UTC p (MakeDate (MakeDay y (mo - 1) d) (MakeTime h mi 0 0)))
          else dateParseOther p s
      | None \<Rightarrow> dateParseOther p s)"

subsection \<open>\<open>Date.prototype.toISOString\<close>\<close>

definition yearString :: "int \<Rightarrow> jsstring" where
  "yearString y =
     (if 0 \<le> y \<and> y \<le> 9999 then pad 4 (nat y)
      else (if y < 0 then 0x2D else 0x2B) # pad 6 (nat \<bar>y\<bar>))"

definition toISOString :: "int \<Rightarrow> jsstring" where
  "toISOString t =
     (let day = t div msPerDay;
          timeInDay = t mod msPerDay;
          y = YearFromDay day;
          dayWithinYear = day - DayFromYear y;
          m = MonthFromDay (InLeapYear y) dayWithinYear;
          dt = dayWithinYear - monthStart (InLeapYear y) m + 1
      in yearString y @ asc ''-'' @ pad 2 (nat (m + 1)) @ asc ''-'' @ pad 2 (nat dt) @
         asc ''T'' @ pad 2 (nat (timeInDay div 3600000)) @
         asc '':'' @ pad 2 (nat (timeInDay div 60000 mod 60)) @
         asc '':'' @ pad 2 (nat (timeInDay div 1000 mod 60)) @
         asc ''.'' @ pad 3 (nat (timeInDay mod 1000)) @ asc ''Z'')"

text \<open>
  \<open>s.replace(/-|:|\.\d{3}/g, '')\<close>: every hyphen, every colon and every full stop
  followed by three digits (with the digits) is removed, from left to right.
\<close>

function stripPunctuation :: "jsstring \<Rightarrow> jsstring" where
  "stripPunctuation [] = []"
| "stripPunctuation (c # cs) =
     (if c = 0x2D \<or> c = 0x3A then stripPunctuation cs
      else if c = 0x2E \<and> 3 \<le> length cs \<and> list_all isDigit (take 3 cs)
        then stripPunctuation (drop 3 cs)
      else c # stripPunctuation cs)"
  by pat_completeness auto
termination
  by (relation "measure length") auto

section \<open>\<open>URLSearchParams\<close> (WHATWG URL, application/x-www-form-urlencoded)\<close>

text \<open>
  \<open>URLSearchParams\<close> takes names and values as scalar value strings: a surrogate pair
  is one code point, a lone surrogate becomes U+FFFD. The serializer encodes them in
  UTF-8 and percent-encodes every byte but the ASCII alphanumerics and \<open>*-._\<close>, with
  \<open>+\<close> for a space.
\<close>

definition isHighSurrogate :: "16 word \<Rightarrow> bool" where
  "isHighSurrogate c \<longleftrightarrow> 0xD800 \<le> c \<and> c \<le> 0xDBFF"

definition isLowSurrogate :: "16 word \<Rightarrow> bool" where
  "isLowSurrogate c \<longleftrightarrow> 0xDC00 \<le> c \<and> c \<le> 0xDFFF"

definition utf8_codepoint :: "nat \<Rightarrow> bytes" where
  "utf8_codepoint n =
     (if n < 0x80 then [of_nat n]
      else if n < 0x800 then [of_nat (0xC0 + n div 64), of_nat (0x80 + n mod 64)]
      else if n < 0x10000 then
        [of_nat (0xE0 + n div 4096), of_nat (0x80 + n div 64 mod 64), of_nat (0x80 + n mod 64)]
      else
        [of_nat (0xF0 + n div 262144), of_nat (0x80 + n div 4096 mod 64),
         of_nat (0x80 + n div 64 mod 64), of_nat (0x80 + n mod 64)])"

definition scalarValue :: "16 word \<Rightarrow> nat" where
  "scalarValue c = (if isHighSurrogate c \<or> isLowSurrogate c then 0xFFFD else unat c)"

fun utf8_encode :: "jsstring \<Rightarrow> bytes" where
  "utf8_encode [] = []"
| "utf8_encode [c] = utf8_codepoint (scalarValue c)"
| "utf8_encode (c # d # cs) =
     (if isHighSurrogate c \<and> isLowSurrogate d
      then utf8_codepoint (0x10000 + (unat c - 0xD800) * 0x400 + (unat d - 0xDC00)) @
           utf8_encode cs
      else utf8_codepoint (scalarValue c) @ utf8_encode (d # cs))"

text \<open>
  The serializer works on bytes and yields ASCII bytes; the string it returns has one
  code unit for each of them.
\<close>

definition hexDigit :: "nat \<Rightarrow> 8 word" where
  "hexDigit n = (if n < 10 then 0x30 + of_nat n else 0x41 + of_nat (n - 10))"

definition urlencodedKeeps :: "8 word \<Rightarrow> bool" where
  "urlencodedKeeps b \<longleftrightarrow>
     b = 0x2A \<or> b = 0x2D \<or> b = 0x2E \<or> (0x30 \<le> b \<and> b \<le> 0x39) \<or>
     (0x41 \<le> b \<and> b \<le> 0x5A) \<or> b = 0x5F \<or> (0x61 \<le> b \<and> b \<le> 0x7A)"

text \<open>The bytes the serializer produces for a name or a value.\<close>

definition isUrlencodedOutput :: "8 word \<Rightarrow> bool" where
  "isUrlencodedOutput b \<longleftrightarrow> b = 0x2B \<or> b = 0x25 \<or> urlencodedKeeps b"

definition urlencodeByte :: "8 word \<Rightarrow> bytes" where
  "urlencodeByte b =
     (if b = 0x20 then [0x2B]
      else if urlencodedKeeps b then [b]
      else [0x25, hexDigit (unat b div 16), hexDigit (unat b mod 16)])"

definition urlencode :: "jsstring \<Rightarrow> bytes" where
  "urlencode s = concat (map urlencodeByte (utf8_encode s))"

definition urlencodedSerialize :: "(jsstring \<times> jsstring) list \<Rightarrow> bytes" where
  "urlencodedSerialize params =
     join [0x26] (map (\<lambda>(k, v). urlencode k @ [0x3D] @ urlencode v) params)"

definition URLSearchParams_toString :: "(jsstring \<times> jsstring) list \<Rightarrow> jsstring" where
  "URLSearchParams_toString params = map ucast (urlencodedSerialize params)"

subsection \<open>Reading a parameter back from a URL\<close>

text \<open>
  What \<open>new URL(url).searchParams.get(key)\<close> reads, as the bytes of the value before
  the final UTF-8 decoding: the query is the part of the URL after the first \<open>?\<close> up to
  a \<open>#\<close>; it is split at \<open>&\<close>, each non-empty piece at its first \<open>=\<close>; \<open>+\<close> is a
  space, and \<open>%XX\<close> is the byte \<open>XX\<close>.
\<close>

fun splitOn :: "'a \<Rightarrow> 'a list \<Rightarrow> 'a list list" where
  "splitOn sep [] = [[]]"
| "splitOn sep (x # xs) =
     (if x = sep then [] # splitOn sep xs
      else (case splitOn sep xs of [] \<Rightarrow> [[x]] | y # ys \<Rightarrow> (x # y) # ys))"

definition hexValue :: "8 word \<Rightarrow> nat option" where
  "hexValue b =
     (if 0x30 \<le> b \<and> b \<le> 0x39 then Some (unat b - 0x30)
      else if 0x41 \<le> b \<and> b \<le> 0x46 then Some (unat b - 0x41 + 10)
      else if 0x61 \<le> b \<and> b \<le> 0x66 then Some (unat b - 0x61 + 10)
      else None)"

fun percentDecode :: "bytes \<Rightarrow> bytes" where
  "percentDecode (b # h # l # bs) =
     (if b = 0x25 then
        (case (hexValue h, hexValue l) of
           (Some x, Some y) \<Rightarrow> of_nat (16 * x + y) # percentDecode bs
         | _ \<Rightarrow> b # percentDecode (h # l # bs))
      else b # percentDecode (h # l # bs))"
| "percentDecode (b # bs) = b # percentDecode bs"
| "percentDecode [] = []"

definition plusToSpace :: "bytes \<Rightarrow> bytes" where
  "plusToSpace bs = map (\<lambda>b. if b = 0x2B then 0x20 else b) bs"

definition parsePair :: "bytes \<Rightarrow> bytes \<times> bytes" where
  "parsePair piece =
     (let k = takeWhile (\<lambda>b. b \<noteq> 0x3D) piece;
          v = drop (length k + 1) piece
      in (percentDecode (plusToSpace k), percentDecode (plusToSpace v)))"

definition urlencodedParse :: "bytes \<Rightarrow> (bytes \<times> bytes) list" where
  "urlencodedParse input = map parsePair (filter (\<lambda>piece. piece \<noteq> []) (splitOn 0x26 input))"

definition queryOf :: "jsstring \<Rightarrow> jsstring" where
  "queryOf url = takeWhile (\<lambda>c. c \<noteq> 0x23) (drop 1 (dropWhile (\<lambda>c. c \<noteq> 0x3F) url))"

definition searchParam :: "jsstring \<Rightarrow> jsstring \<Rightarrow> bytes option" where
  "searchParam url key = map_of (urlencodedParse (utf8_encode (queryOf url))) (utf8_encode key)"

section \<open>The form (\<open>App.tsx\<close>)\<close>

subsection \<open>The literals of the component\<close>

definition msg_required_fields :: jsstring where
  "msg_required_fields =
     [0x932F, 0x8AA4, 0xFF1A, 0x6E05, 0x6F54, 0x65E5, 0x671F, 0x3001, 0x958B, 0x59CB,
      0x6642, 0x9593, 0x548C, 0x7D50, 0x675F, 0x6642, 0x9593, 0x70BA, 0x5FC5, 0x586B,
      0x6B04, 0x4F4D, 0x3002]"

definition msg_invalid_datetime :: jsstring where
  "msg_invalid_datetime =
     [0x932F, 0x8AA4, 0xFF1A, 0x65E5, 0x671F, 0x6642, 0x9593, 0x683C, 0x5F0F, 0x7121,
      0x6548, 0xFF0C, 0x8ACB, 0x6AA2, 0x67E5, 0x65E5, 0x671F, 0x8207, 0x6642, 0x9593,
      0x6B04, 0x4F4D, 0x3002]"

definition msg_manual_success :: jsstring where
  "msg_manual_success =
     [0x624B, 0x52D5, 0x751F, 0x6210, 0x6210, 0x529F, 0xFF0C, 0x5DF2, 0x958B, 0x555F,
      0x0020, 0x0047, 0x006F, 0x006F, 0x0067, 0x006C, 0x0065, 0x0020, 0x65E5, 0x66C6,
      0x4E8B, 0x4EF6, 0x9801, 0x9762, 0x3002]"

definition msg_auto_success :: jsstring where
  "msg_auto_success =
     [0x0041, 0x0049, 0x0020, 0x8B58, 0x5225, 0x6210, 0x529F, 0xFF0C, 0x5DF2, 0x81EA,
      0x52D5, 0x586B, 0x8868, 0x4E26, 0x958B, 0x555F, 0x65E5, 0x66C6, 0x9801, 0x9762,
      0x3002]"

definition msg_no_files :: jsstring where
  "msg_no_files =
     [0x932F, 0x8AA4, 0xFF1A, 0x8ACB, 0x5148, 0x4E0A, 0x50B3, 0x5305, 0x542B, 0x9810,
      0x7D04, 0x8CC7, 0x8A0A, 0x7684, 0x5716, 0x7247, 0x6A94, 0x6848, 0x3002]"

definition msg_unknown_error :: jsstring where
  "msg_unknown_error =
     [0x767C, 0x751F, 0x672A, 0x77E5, 0x932F, 0x8AA4, 0x3002]"

definition msg_auto_failed_prefix :: jsstring where
  "msg_auto_failed_prefix =
     [0x81EA, 0x52D5, 0x8B58, 0x5225, 0x5931, 0x6557, 0xFF1A]"

definition msg_auto_failed_suffix :: jsstring where
  "msg_auto_failed_suffix =
     [0x0020, 0x8ACB, 0x6AA2, 0x67E5, 0x5716, 0x7247, 0x6E05, 0x6670, 0x5EA6, 0xFF0C,
      0x6216, 0x624B, 0x52D5, 0x8F38, 0x5165, 0x8CC7, 0x6599, 0x3002]"

definition title_prefix :: jsstring where
  "title_prefix =
     [0x3010, 0x6E05, 0x6F54, 0x6392, 0x73ED, 0x3011]"

definition title_fallback :: jsstring where
  "title_fallback =
     [0x65B0, 0x9810, 0x7D04]"

definition details_address_label :: jsstring where
  "details_address_label =
     [0x670D, 0x52D9, 0x5730, 0x5740, 0xFF1A]"

definition details_notes_label :: jsstring where
  "details_notes_label =
     [0x6E05, 0x6F54, 0x8981, 0x6C42, 0x002F, 0x5099, 0x8A3B, 0xFF1A]"

subsection \<open>State, browser and trace\<close>

text \<open>
  The state of the component is the six \<open>useState\<close> cells. The browser contributes
  the object URLs (\<open>nextObjectUrl\<close> numbers the ones \<open>URL.createObjectURL\<close> hands
  out). Every call of a state setter and of a browser function is appended to
  \<open>trace\<close>, in the order of the calls, so that what a handler did can be counted.
\<close>

datatype objectUrl = BlobUrl nat

record status =
  "text" :: jsstring
  isError :: bool

datatype event =
    SetFormData CleaningScheduleData
  | SetSelectedFiles "jsfile list"
  | SetImagePreviews "objectUrl list"
  | SetIsLoading bool
  | SetMessage "status option"
  | SetCalendarLink jsstring
  | RevokeObjectURL objectUrl
  | CreateObjectURL jsfile objectUrl
  | WindowOpen jsstring

record world =
  formData :: CleaningScheduleData
  selectedFiles :: "jsfile list"
  imagePreviews :: "objectUrl list"
  isLoading :: bool
  message :: "status option"
  calendarLink :: jsstring
  nextObjectUrl :: nat
  trace :: "event list"

definition initialFormData :: CleaningScheduleData where
  "initialFormData =
     \<lparr>area = Some [], name = Some [], phone = Some [], date = Some [],
      startTime = Some (asc ''09:00''), endTime = Some (asc ''10:00''),
      address = Some [], notes = Some []\<rparr>"

definition initialWorld :: world where
  "initialWorld =
     \<lparr>formData = initialFormData, selectedFiles = [], imagePreviews = [], isLoading = False,
      message = None, calendarLink = [], nextObjectUrl = 0, trace = []\<rparr>"

definition setFormData :: "CleaningScheduleData \<Rightarrow> world \<Rightarrow> world" where
  "setFormData v w = w\<lparr>formData := v, trace := trace w @ [SetFormData v]\<rparr>"

definition setSelectedFiles :: "jsfile list \<Rightarrow> world \<Rightarrow> world" where
  "setSelectedFiles v w = w\<lparr>selectedFiles := v, trace := trace w @ [SetSelectedFiles v]\<rparr>"

definition setImagePreviews :: "objectUrl list \<Rightarrow> world \<Rightarrow> world" where
  "setImagePreviews v w = w\<lparr>imagePreviews := v, trace := trace w @ [SetImagePreviews v]\<rparr>"

definition setIsLoading :: "bool \<Rightarrow> world \<Rightarrow> world" where
  "setIsLoading v w = w\<lparr>isLoading := v, trace := trace w @ [SetIsLoading v]\<rparr>"

definition setMessage :: "status option \<Rightarrow> world \<Rightarrow> world" where
  "setMessage v w = w\<lparr>message := v, trace := trace w @ [SetMessage v]\<rparr>"

definition setCalendarLink :: "jsstring \<Rightarrow> world \<Rightarrow> world" where
  "setCalendarLink v w = w\<lparr>calendarLink := v, trace := trace w @ [SetCalendarLink v]\<rparr>"

definition revokeObjectURL :: "objectUrl \<Rightarrow> world \<Rightarrow> world" where
  "revokeObjectURL u w = w\<lparr>trace := trace w @ [RevokeObjectURL u]\<rparr>"

definition createObjectURL :: "jsfile \<Rightarrow> world \<Rightarrow> objectUrl \<times> world" where
  "createObjectURL f w =
     (BlobUrl (nextObjectUrl w),
      w\<lparr>nextObjectUrl := nextObjectUrl w + 1,
        trace := trace w @ [CreateObjectURL f (BlobUrl (nextObjectUrl w))]\<rparr>)"

definition windowOpen :: "jsstring \<Rightarrow> world \<Rightarrow> world" where
  "windowOpen url w = w\<lparr>trace := trace w @ [WindowOpen url]\<rparr>"

text \<open>What was called between a world and a later one.\<close>

definition emitted :: "world \<Rightarrow> world \<Rightarrow> event list" where
  "emitted w w' = drop (length (trace w)) (trace w')"

subsection \<open>\<open>handleFileChange\<close> and the clean-up effect\<close>

text \<open>\<open>files.map(file => URL.createObjectURL(file))\<close>\<close>

fun createObjectURLs :: "jsfile list \<Rightarrow> world \<Rightarrow> objectUrl list \<times> world" where
  "createObjectURLs [] w = ([], w)"
| "createObjectURLs (f # fs) w =
     (let (u, w1) = createObjectURL f w;
          (us, w2) = createObjectURLs fs w1
      in (u # us, w2))"

text \<open>
  \<open>targetFiles\<close> is \<open>e.target.files\<close> (\<open>None\<close> for null), and \<open>filesOf\<close> is
  \<open>e.target.files ? Array.from(e.target.files) : []\<close>. The handler reads
  \<open>imagePreviews\<close> of the render it belongs to, that is of the world it starts in.
\<close>

definition filesOf :: "jsfile list option \<Rightarrow> jsfile list" where
  "filesOf targetFiles = (case targetFiles of None \<Rightarrow> [] | Some fs \<Rightarrow> fs)"

definition handleFileChange :: "jsfile list option \<Rightarrow> world \<Rightarrow> world" where
  "handleFileChange targetFiles w =
     (let w1 = setMessage None w;
          w2 = setCalendarLink [] w1;
          files = filesOf targetFiles;
          w3 = setSelectedFiles files w2;
          w4 = fold revokeObjectURL (imagePreviews w) w3
      in if length files > 0
         then (let (newPreviews, w5) = createObjectURLs files w4
               in setImagePreviews newPreviews w5)
         else setImagePreviews [] w4)"

text \<open>
  The function returned by the effect \<open>useEffect(..., [imagePreviews])\<close>: it revokes
  the previews of the render that installed it. React calls it when a later render
  has another \<open>imagePreviews\<close> array, and when the component is removed.
\<close>

definition previewsCleanup :: "objectUrl list \<Rightarrow> world \<Rightarrow> world" where
  "previewsCleanup previews w = fold revokeObjectURL previews w"

text \<open>
  A change of the file input: the handler runs; it always stores a new array in
  \<open>imagePreviews\<close>, so the render that follows runs the clean-up of the previous
  render's effect.
\<close>

definition fileSelection :: "jsfile list option \<Rightarrow> world \<Rightarrow> world" where
  "fileSelection targetFiles w = previewsCleanup (imagePreviews w) (handleFileChange targetFiles w)"

definition unmount :: "world \<Rightarrow> world" where
  "unmount w = previewsCleanup (imagePreviews w) w"

subsection \<open>\<open>handleFormChange\<close>\<close>

datatype field = Area | Name | Phone | Date | StartTime | EndTime | Address | Notes

fun setField :: "field \<Rightarrow> jsstring \<Rightarrow> CleaningScheduleData \<Rightarrow> CleaningScheduleData" where
  "setField Area v d = d\<lparr>area := Some v\<rparr>"
| "setField Name v d = d\<lparr>name := Some v\<rparr>"
| "setField Phone v d = d\<lparr>phone := Some v\<rparr>"
| "setField Date v d = d\<lparr>date := Some v\<rparr>"
| "setField StartTime v d = d\<lparr>startTime := Some v\<rparr>"
| "setField EndTime v d = d\<lparr>endTime := Some v\<rparr>"
| "setField Address v d = d\<lparr>address := Some v\<rparr>"
| "setField Notes v d = d\<lparr>notes := Some v\<rparr>"

definition handleFormChange :: "field \<Rightarrow> jsstring \<Rightarrow> world \<Rightarrow> world" where
  "handleFormChange fid v w = setFormData (setField fid v (formData w)) w"

subsection \<open>\<open>fileToBase64\<close>\<close>

text \<open>
  The promise rejects with the reader's error event, which is no \<open>Error\<close>; it resolves
  with the second piece of the data URL split at commas (\<open>undefined\<close> if there is
  none).
\<close>

definition fileToBase64 :: "platform \<Rightarrow> jsfile \<Rightarrow> thrown + jsvalue" where
  "fileToBase64 p f =
     (case readAsDataURL p f of
        None \<Rightarrow> Inl NotAnError
      | Some result \<Rightarrow>
          Inr (case splitOn 0x2C result of a # b # rest \<Rightarrow> Some b | _ \<Rightarrow> None))"

subsection \<open>\<open>generateCalendarLink\<close>\<close>

definition formatDateTime :: "platform \<Rightarrow> jsvalue \<Rightarrow> jsvalue \<Rightarrow> jsvalue" where
  "formatDateTime p dateStr timeStr =
     (case dateParse p (toString dateStr @ asc ''T'' @ toString timeStr) of
        None \<Rightarrow> None
      | Some t \<Rightarrow> Some (stripPunctuation (toISOString t)))"

definition titleParts :: "CleaningScheduleData \<Rightarrow> jsstring" where
  "titleParts d = join (asc '' | '') (map toString (filter truthy [area d, name d, phone d]))"

definition eventTitle :: "CleaningScheduleData \<Rightarrow> jsstring" where
  "eventTitle d = title_prefix @ (if titleParts d \<noteq> [] then titleParts d else title_fallback)"

definition eventDetails :: "CleaningScheduleData \<Rightarrow> jsstring" where
  "eventDetails d =
     trim (details_address_label @ toString (address d) @ [0x0A] @
           (if truthy (notes d) then details_notes_label @ toString (notes d) else []))"

definition calendarParams ::
  "CleaningScheduleData \<Rightarrow> jsvalue \<Rightarrow> jsvalue \<Rightarrow> (jsstring \<times> jsstring) list" where
  "calendarParams d start end =
     [(asc ''action'', asc ''TEMPLATE''),
      (asc ''text'', eventTitle d),
      (asc ''dates'', toString start @ asc ''/'' @ toString end),
      (asc ''details'', eventDetails d),
      (asc ''location'', toString (address d)),
      (asc ''ctz'', asc ''Asia/Taipei'')]"

definition calendarUrl :: "CleaningScheduleData \<Rightarrow> jsvalue \<Rightarrow> jsvalue \<Rightarrow> jsstring" where
  "calendarUrl d start end =
     asc ''https://www.google.com/calendar/render?'' @
     URLSearchParams_toString (calendarParams d start end)"

definition generateCalendarLink ::
  "platform \<Rightarrow> CleaningScheduleData \<Rightarrow> bool \<Rightarrow> world \<Rightarrow> world" where
  "generateCalendarLink p d isManual w =
     (if \<not> truthy (date d) \<or> \<not> truthy (startTime d) \<or> \<not> truthy (endTime d) then
        setMessage (Some \<lparr>text = msg_required_fields, isError = True\<rparr>) w
      else
        (let start = formatDateTime p (date d) (startTime d);
             end = formatDateTime p (date d) (endTime d)
         in if \<not> truthy start \<or> \<not> truthy end then
              setMessage (Some \<lparr>text = msg_invalid_datetime, isError = True\<rparr>) w
            else
              (let finalUrl = calendarUrl d start end;
                   w1 = setCalendarLink finalUrl w;
                   w2 = windowOpen finalUrl w1
               in if isManual
                  then setMessage (Some \<lparr>text = msg_manual_success, isError = False\<rparr>) w2
                  else setMessage (Some \<lparr>text = msg_auto_success, isError = False\<rparr>) w2)))"

subsection \<open>\<open>handleProcessImages\<close>\<close>

text \<open>\<open>Promise.all\<close> over the selected files: the image parts, or a rejection.\<close>

fun imagePartsOf :: "platform \<Rightarrow> jsfile list \<Rightarrow> thrown + part list" where
  "imagePartsOf p [] = Inr []"
| "imagePartsOf p (f # fs) =
     (case fileToBase64 p f of
        Inl e \<Rightarrow> Inl e
      | Inr b \<Rightarrow>
          (case imagePartsOf p fs of
             Inl e \<Rightarrow> Inl e
           | Inr ps \<Rightarrow> Inr (InlineData b (fileType f) # ps)))"

text \<open>The two awaited steps of the \<open>try\<close> block: what the handler waits for.\<close>

definition extraction :: "platform \<Rightarrow> jsfile list \<Rightarrow> thrown + CleaningScheduleData" where
  "extraction p files =
     (case imagePartsOf p files of
        Inl e \<Rightarrow> Inl e
      | Inr imageParts \<Rightarrow> extractScheduleFromImages p imageParts)"

text \<open>
  The handler up to its first \<open>await\<close>: the guard, or the three setter calls. The
  second component tells whether the request was started.
\<close>

definition processImages_begin :: "world \<Rightarrow> world \<times> bool" where
  "processImages_begin w =
     (if length (selectedFiles w) = 0 then
        (setMessage (Some \<lparr>text = msg_no_files, isError = True\<rparr>) w, False)
      else (setCalendarLink [] (setMessage None (setIsLoading True w)), True))"

definition processImages_catch :: "thrown \<Rightarrow> world \<Rightarrow> world" where
  "processImages_catch e w =
     (let errorMessage = (case e of JsError m \<Rightarrow> m | NotAnError \<Rightarrow> msg_unknown_error)
      in setMessage
           (Some \<lparr>text = msg_auto_failed_prefix @ errorMessage @ msg_auto_failed_suffix,
                  isError = True\<rparr>) w)"

text \<open>
  The handler from the moment the awaited promises settle, in the world of that
  moment: the rest of the \<open>try\<close> block or the \<open>catch\<close> block, then \<open>finally\<close>.
  \<open>files\<close> are the selected files of the render the handler belongs to.
\<close>

definition processImages_settle :: "platform \<Rightarrow> jsfile list \<Rightarrow> world \<Rightarrow> world" where
  "processImages_settle p files w =
     setIsLoading False
       (case extraction p files of
          Inl e \<Rightarrow> processImages_catch e w
        | Inr extractedData \<Rightarrow>
            generateCalendarLink p extractedData False (setFormData extractedData w))"

text \<open>The whole handler when nothing else happens while it waits.\<close>

definition handleProcessImages :: "platform \<Rightarrow> world \<Rightarrow> world" where
  "handleProcessImages p w =
     (case processImages_begin w of
        (w1, False) \<Rightarrow> w1
      | (w1, True) \<Rightarrow> processImages_settle p (selectedFiles w) w1)"

subsection \<open>The submission lifecycle\<close>

datatype phase = Idle | Extracting

text \<open>Both buttons are disabled exactly while \<open>isLoading\<close> holds.\<close>

definition phase :: "world \<Rightarrow> phase" where
  "phase w = (if isLoading w then Extracting else Idle)"

definition manualSubmit :: "platform \<Rightarrow> world \<Rightarrow> world" where
  "manualSubmit p w = generateCalendarLink p (formData w) True w"

fun isStatusSet :: "event \<Rightarrow> bool" where
  "isStatusSet (SetMessage (Some m)) = True"
| "isStatusSet e = False"

fun isRevoke :: "event \<Rightarrow> bool" where
  "isRevoke (RevokeObjectURL u) = True"
| "isRevoke e = False"

fun isCreate :: "event \<Rightarrow> bool" where
  "isCreate (CreateObjectURL f u) = True"
| "isCreate e = False"

section \<open>Sample data\<close>

text \<open>
  \<open>JSON.parse\<close> on the two response bodies the examples use: the empty object, and an
  object that carries the date and the two times only. Any other text is reported as a
  syntax error here.
\<close>

definition emptyObject :: CleaningScheduleData where
  "emptyObject =
     \<lparr>area = None, name = None, phone = None, date = None, startTime = None, endTime = None,
      address = None, notes = None\<rparr>"

definition morningBody :: jsstring where
  \<open>morningBody = asc ''{"date":"2024-01-01","startTime":"07:00","endTime":"09:00"}''\<close>

definition morningObject :: CleaningScheduleData where
  "morningObject =
     emptyObject\<lparr>date := Some (asc ''2024-01-01''), startTime := Some (asc ''07:00''),
       endTime := Some (asc ''09:00'')\<rparr>"

definition sampleJsonParse :: "jsstring \<Rightarrow> jsstring + CleaningScheduleData" where
  "sampleJsonParse s =
     (if s = asc ''{}'' then Inr emptyObject
      else if s = morningBody then Inr morningObject
      else Inl (asc ''Unexpected token''))"

text \<open>
  A browser in the time zone of Taipei (eight hours ahead of UTC all year) with a
  configured key, whose remote call settles as given.
\<close>

definition taipeiBrowser :: "remote_result \<Rightarrow> platform" where
  "taipeiBrowser r =
     \<lparr>apiKey = Some (asc ''test-key''),
      generateContent = (\<lambda>parts. r),
      jsonParse = sampleJsonParse,
      readAsDataURL = (\<lambda>f. Some (asc ''data:image/png;base64,AAAA'')),
      localTZA = (\<lambda>t. 28800000),
      dateParseOther = (\<lambda>s. None)\<rparr>"

definition screenshot :: jsfile where
  "screenshot = \<lparr>fileName = asc ''order.png'', fileType = asc ''image/png'', fileContents = [0, 0, 0]\<rparr>"

definition zhongshan :: jsstring where
  "zhongshan = [0x4E2D, 0x5C71, 0x5340]"

definition wangXiaoming :: jsstring where
  "wangXiaoming = [0x738B, 0x5C0F, 0x660E]"

definition zhongshanWang :: CleaningScheduleData where
  "zhongshanWang = initialFormData\<lparr>area := Some zhongshan, name := Some wangXiaoming\<rparr>"

definition oldLink :: jsstring where
  "oldLink = asc ''https://www.google.com/calendar/render?action=TEMPLATE''"

section \<open>Notions of the specification\<close>

text \<open>
  The two validation failures of the link builder: its status messages for a missing
  field and for a date-time that does not parse.
\<close>

definition isInvalidScheduleError :: "status option \<Rightarrow> bool" where
  "isInvalidScheduleError m \<longleftrightarrow>
     m = Some \<lparr>text = msg_required_fields, isError = True\<rparr> \<or>
     m = Some \<lparr>text = msg_invalid_datetime, isError = True\<rparr>"

fun isLoadingSet :: "event \<Rightarrow> bool" where
  "isLoadingSet (SetIsLoading b) = True"
| "isLoadingSet e = False"

text \<open>
  A record passes the validation of the link builder when date, start time and end
  time are present and not empty, and the date combines with each time into a string
  that \<open>Date.parse\<close> accepts.
\<close>

definition passesValidation :: "platform \<Rightarrow> CleaningScheduleData \<Rightarrow> bool" where
  "passesValidation p d \<longleftrightarrow>
     truthy (date d) \<and> truthy (startTime d) \<and> truthy (endTime d) \<and>
     dateParse p (toString (date d) @ asc ''T'' @ toString (startTime d)) \<noteq> None \<and>
     dateParse p (toString (date d) @ asc ''T'' @ toString (endTime d)) \<noteq> None"

definition worldWithLink :: world where
  "worldWithLink = initialWorld\<lparr>calendarLink := oldLink\<rparr>"

definition badDate :: CleaningScheduleData where
  "badDate = morningObject\<lparr>date := Some (asc ''2024-13-45'')\<rparr>"

definition worldWithFile :: world where
  "worldWithFile = fileSelection (Some [screenshot]) initialWorld"

definition passingWorld :: world where
  "passingWorld = generateCalendarLink (taipeiBrowser (Response [])) morningObject False initialWorld"

section \<open>The extraction client: what it returns\<close>

lemma trim_empty [simp]: "trim [] = []"
  by (simp add: trim_def)

lemma extract_parsed:
  assumes "truthy (apiKey p)"
    and "generateContent p (TextPart userQuery # imageParts) = Response body"
    and "trim body \<noteq> []"
    and "jsonParse p (trim body) = Inr parsedData"
  shows "extractScheduleFromImages p imageParts = Inr parsedData"
  using assms by (simp add: extractScheduleFromImages_def extract_try_def)

lemma extract_empty_body:
  assumes "truthy (apiKey p)"
    and "generateContent p (TextPart userQuery # imageParts) = Response body"
    and "trim body = []"
  shows "extractScheduleFromImages p imageParts = Inl (extract_catch (JsError err_no_content))"
  using assms by (simp add: extractScheduleFromImages_def extract_try_def)

lemma extract_malformed_body:
  assumes "truthy (apiKey p)"
    and "generateContent p (TextPart userQuery # imageParts) = Response body"
    and "trim body \<noteq> []"
    and "jsonParse p (trim body) = Inl syntaxError"
  shows "extractScheduleFromImages p imageParts = Inl (extract_catch (JsError syntaxError))"
  using assms by (simp add: extractScheduleFromImages_def extract_try_def)

lemma no_content_not_key_message: "\<not> str_includes err_no_content (asc ''API key not valid'')"
  by (simp add: err_no_content_def asc_def)

lemma catch_no_content: "extract_catch (JsError err_no_content) = JsError err_generic"
  by (simp add: extract_catch_def no_content_not_key_message)

lemma err_generic_neq_no_content: "err_generic \<noteq> err_no_content"
  by (simp add: err_generic_def err_no_content_def asc_def)

lemma taipei_key [simp]: "truthy (apiKey (taipeiBrowser r))"
  by (simp add: taipeiBrowser_def truthy_def asc_def)

lemma taipei_generateContent [simp]: "generateContent (taipeiBrowser r) parts = r"
  by (simp add: taipeiBrowser_def)

lemma taipei_jsonParse [simp]: "jsonParse (taipeiBrowser r) = sampleJsonParse"
  by (simp add: taipeiBrowser_def)

lemma parse_empty_object: "sampleJsonParse (trim (asc ''{}'')) = Inr emptyObject"
  by (simp add: sampleJsonParse_def trim_def asc_def isWhiteSpace_def)

lemma trim_braces: "trim (asc ''{}'') \<noteq> []"
  by (simp add: trim_def asc_def isWhiteSpace_def)

text \<open>
  C1 (as stated, refuted): the response body \<open>{}\<close> omits all eight fields; the record
  the client returns has no \<open>date\<close> at all, not the empty string.
\<close>

theorem omitted_field_is_undefined:
  "extractScheduleFromImages (taipeiBrowser (Response (asc ''{}''))) [] = Inr emptyObject
   \<and> date emptyObject = None \<and> date emptyObject \<noteq> Some []"
proof -
  have "extractScheduleFromImages (taipeiBrowser (Response (asc ''{}''))) [] = Inr emptyObject"
    by (rule extract_parsed [where body = "asc ''{}''"]) (simp_all add: parse_empty_object trim_braces)
  then show ?thesis by (simp add: emptyObject_def)
qed

text \<open>
  C1 (amended): when the remote call answers with a body that is not blank and that
  parses, the client returns the parsed object itself, unchanged: a field the body
  carries keeps its string, and a field the body omits is undefined in the record
  (no default is filled in).
\<close>

theorem extract_returns_parsed_object:
  assumes "truthy (apiKey p)"
    and "generateContent p (TextPart userQuery # imageParts) = Response body"
    and "trim body \<noteq> []"
    and "jsonParse p (trim body) = Inr parsedData"
  shows "extractScheduleFromImages p imageParts = Inr parsedData"
  using assms by (rule extract_parsed)

lemma trim_morning: "trim morningBody = morningBody"
  by (simp add: trim_def morningBody_def asc_def isWhiteSpace_def)

lemma morning_not_braces: "morningBody \<noteq> asc ''{}''"
  by (simp add: morningBody_def asc_def)

theorem extract_returns_parsed_object_witness:
  "extractScheduleFromImages (taipeiBrowser (Response morningBody)) [] = Inr morningObject
   \<and> area morningObject = None \<and> date morningObject = Some (asc ''2024-01-01'')"
proof -
  have "morningBody \<noteq> []" by (simp add: morningBody_def asc_def)
  then have "extractScheduleFromImages (taipeiBrowser (Response morningBody)) [] = Inr morningObject"
    by (intro extract_returns_parsed_object [where body = morningBody])
      (simp_all add: trim_morning sampleJsonParse_def morning_not_braces)
  then show ?thesis by (simp add: morningObject_def emptyObject_def)
qed

text \<open>
  C2 (the code at the failing input): the remote call succeeds with an empty body.
  The \<open>try\<close> block throws the empty-response error, the \<open>catch\<close> block of the same
  function replaces it, and the caller receives the generic failure.
\<close>

theorem empty_body_surfaces_generic_error:
  "extractScheduleFromImages (taipeiBrowser (Response [])) [] = Inl (JsError err_generic)
   \<and> err_generic \<noteq> err_no_content"
proof -
  have "extractScheduleFromImages (taipeiBrowser (Response [])) []
      = Inl (extract_catch (JsError err_no_content))"
    by (rule extract_empty_body [where body = "[]"]) simp_all
  then show ?thesis by (simp add: catch_no_content err_generic_neq_no_content)
qed

section \<open>The title of the event\<close>

lemma titleParts_empty_iff:
  "titleParts d = [] \<longleftrightarrow> \<not> (truthy (area d) \<or> truthy (name d) \<or> truthy (phone d))"
  by (cases "area d"; cases "name d"; cases "phone d")
     (simp_all add: titleParts_def truthy_def toString_def asc_def)

text \<open>
  C6: the parts of the title are the non-empty ones of area, name and phone, in this
  order, with \<open>" | "\<close> between two neighbours and nowhere else; for the area and the
  name of the example and an empty phone this is the text of the example; when all
  three are empty the title is the fallback literal (after the prefix).
\<close>

theorem title_joins_nonempty_parts:
  "titleParts d =
     (if truthy (area d) then
        toString (area d) @
        (if truthy (name d) then asc '' | '' @ toString (name d) else []) @
        (if truthy (phone d) then asc '' | '' @ toString (phone d) else [])
      else if truthy (name d) then
        toString (name d) @ (if truthy (phone d) then asc '' | '' @ toString (phone d) else [])
      else if truthy (phone d) then toString (phone d)
      else [])
   \<and> titleParts zhongshanWang =
       [0x4E2D, 0x5C71, 0x5340, 0x20, 0x7C, 0x20, 0x738B, 0x5C0F, 0x660E]
   \<and> eventTitle d =
       title_prefix @
       (if truthy (area d) \<or> truthy (name d) \<or> truthy (phone d) then titleParts d
        else title_fallback)"
proof -
  have table: "titleParts d =
     (if truthy (area d) then
        toString (area d) @
        (if truthy (name d) then asc '' | '' @ toString (name d) else []) @
        (if truthy (phone d) then asc '' | '' @ toString (phone d) else [])
      else if truthy (name d) then
        toString (name d) @ (if truthy (phone d) then asc '' | '' @ toString (phone d) else [])
      else if truthy (phone d) then toString (phone d)
      else [])"
    by (simp add: titleParts_def)
  have example: "titleParts zhongshanWang =
       [0x4E2D, 0x5C71, 0x5340, 0x20, 0x7C, 0x20, 0x738B, 0x5C0F, 0x660E]"
    by (simp add: titleParts_def zhongshanWang_def initialFormData_def zhongshan_def
        wangXiaoming_def truthy_def toString_def asc_def)
  have fallback: "eventTitle d =
       title_prefix @
       (if truthy (area d) \<or> truthy (name d) \<or> truthy (phone d) then titleParts d
        else title_fallback)"
    using titleParts_empty_iff [of d] by (simp add: eventTitle_def)
  from table example fallback show ?thesis by blast
qed

section \<open>The setters and the trace\<close>

lemmas setter_defs =
  setFormData_def setSelectedFiles_def setImagePreviews_def setIsLoading_def setMessage_def
  setCalendarLink_def revokeObjectURL_def windowOpen_def

lemma emitted_self [simp]: "emitted w w = []"
  by (simp add: emitted_def)

lemma emitted_append:
  "trace w' = trace w @ evs \<Longrightarrow> emitted w w' = evs"
  by (simp add: emitted_def)

section \<open>The link builder\<close>

lemma stripPunctuation_snoc_Z:
  "stripPunctuation (s @ [0x5A]) = stripPunctuation s @ [0x5A]"
proof (induction s rule: stripPunctuation.induct)
  case 1
  show ?case by (simp add: isDigit_def)
next
  case (2 c cs)
  have notdigit: "\<not> isDigit 0x5A" by (simp add: isDigit_def)
  consider (punct) "c = 0x2D \<or> c = 0x3A"
    | (millis) "\<not> (c = 0x2D \<or> c = 0x3A)" "c = 0x2E \<and> 3 \<le> length cs \<and> list_all isDigit (take 3 cs)"
    | (other) "\<not> (c = 0x2D \<or> c = 0x3A)" "\<not> (c = 0x2E \<and> 3 \<le> length cs \<and> list_all isDigit (take 3 cs))"
    by blast
  then show ?case
  proof cases
    case punct
    with 2 show ?thesis by auto
  next
    case millis
    then have ih: "stripPunctuation (drop 3 cs @ [0x5A]) = stripPunctuation (drop 3 cs) @ [0x5A]"
      using 2 by blast
    from millis have "stripPunctuation ((c # cs) @ [0x5A]) = stripPunctuation (drop 3 cs @ [0x5A])"
      by simp
    moreover from millis have "stripPunctuation (c # cs) = stripPunctuation (drop 3 cs)"
      by simp
    ultimately show ?thesis using ih by simp
  next
    case other
    then have ih: "stripPunctuation (cs @ [0x5A]) = stripPunctuation cs @ [0x5A]"
      using 2 by blast
    have neg: "\<not> (c = 0x2E \<and> 3 \<le> length (cs @ [0x5A]) \<and> list_all isDigit (take 3 (cs @ [0x5A])))"
    proof
      assume a: "c = 0x2E \<and> 3 \<le> length (cs @ [0x5A]) \<and> list_all isDigit (take 3 (cs @ [0x5A]))"
      show False
      proof (cases "3 \<le> length cs")
        case True
        with a other show False by simp
      next
        case False
        with a have "length cs = 2" by simp
        then have eq: "take 3 (cs @ [0x5A]) = cs @ [0x5A]" by simp
        from a have "list_all isDigit (take 3 (cs @ [0x5A]))" by blast
        then have "list_all isDigit (cs @ [0x5A])" unfolding eq .
        with notdigit show False by simp
      qed
    qed
    have "stripPunctuation ((c # cs) @ [0x5A]) = stripPunctuation (c # (cs @ [0x5A]))"
      by simp
    also have "\<dots> = c # stripPunctuation (cs @ [0x5A])"
      using other(1) neg by (simp only: stripPunctuation.simps if_False)
    also have "\<dots> = (c # stripPunctuation cs) @ [0x5A]"
      using ih by simp
    also have "c # stripPunctuation cs = stripPunctuation (c # cs)"
      using other by (simp only: stripPunctuation.simps if_False)
    finally show ?thesis .
  qed
qed

lemma toISOString_snoc: "\<exists>s. toISOString t = s @ [0x5A]"
  by (simp add: toISOString_def Let_def asc_def)

lemma compact_nonempty: "stripPunctuation (toISOString t) \<noteq> []"
proof -
  obtain s where "toISOString t = s @ [0x5A]" using toISOString_snoc by blast
  then show ?thesis by (simp add: stripPunctuation_snoc_Z)
qed

lemma truthy_formatDateTime:
  "truthy (formatDateTime p a b) \<longleftrightarrow> dateParse p (toString a @ asc ''T'' @ toString b) \<noteq> None"
  by (auto simp: formatDateTime_def truthy_def compact_nonempty split: option.splits)

lemma generateCalendarLink_invalid:
  assumes "\<not> passesValidation p d"
  shows "generateCalendarLink p d isManual w =
     setMessage (Some \<lparr>text = (if \<not> truthy (date d) \<or> \<not> truthy (startTime d) \<or> \<not> truthy (endTime d)
                              then msg_required_fields else msg_invalid_datetime),
                      isError = True\<rparr>) w"
  using assms
  by (auto simp: generateCalendarLink_def passesValidation_def truthy_formatDateTime Let_def)

lemma generateCalendarLink_valid:
  assumes "passesValidation p d"
  shows "generateCalendarLink p d isManual w =
     setMessage (Some \<lparr>text = (if isManual then msg_manual_success else msg_auto_success),
                      isError = False\<rparr>)
       (windowOpen (calendarUrl d (formatDateTime p (date d) (startTime d))
                                  (formatDateTime p (date d) (endTime d)))
          (setCalendarLink (calendarUrl d (formatDateTime p (date d) (startTime d))
                                          (formatDateTime p (date d) (endTime d))) w))"
  using assms
  by (auto simp: generateCalendarLink_def passesValidation_def truthy_formatDateTime Let_def)

lemma generateCalendarLink_keeps [simp]:
  "formData (generateCalendarLink p d isManual w) = formData w"
  "isLoading (generateCalendarLink p d isManual w) = isLoading w"
  "selectedFiles (generateCalendarLink p d isManual w) = selectedFiles w"
  "imagePreviews (generateCalendarLink p d isManual w) = imagePreviews w"
  by (cases "passesValidation p d";
      simp add: generateCalendarLink_invalid generateCalendarLink_valid setter_defs)+

lemma generateCalendarLink_status_count:
  "length (filter isStatusSet (emitted w (generateCalendarLink p d isManual w))) = 1"
  by (cases "passesValidation p d")
     (simp_all add: generateCalendarLink_invalid generateCalendarLink_valid setter_defs emitted_def)

lemma generateCalendarLink_no_loading:
  "filter isLoadingSet (emitted w (generateCalendarLink p d isManual w)) = []"
  by (cases "passesValidation p d")
     (simp_all add: generateCalendarLink_invalid generateCalendarLink_valid setter_defs emitted_def)

lemma generateCalendarLink_message:
  "message (generateCalendarLink p d isManual w) \<noteq> None"
  by (cases "passesValidation p d")
     (simp_all add: generateCalendarLink_invalid generateCalendarLink_valid setter_defs)

lemma generateCalendarLink_trace:
  "\<exists>evs. trace (generateCalendarLink p d isManual w) = trace w @ evs"
  by (cases "passesValidation p d")
     (simp_all add: generateCalendarLink_invalid generateCalendarLink_valid setter_defs)

text \<open>
  C4: a record in which the date, the start time or the end time is missing or empty,
  or in which the date does not combine with one of the times into a string that
  \<open>Date.parse\<close> accepts, makes the link builder fail with one of its two validation
  messages; the outcome does not depend on the manual flag; the builder calls nothing
  but \<open>setMessage\<close>, so the generated link of the state is the one before.
\<close>

theorem invalid_schedule_is_rejected:
  assumes "\<not> truthy (date d) \<or> \<not> truthy (startTime d) \<or> \<not> truthy (endTime d) \<or>
           dateParse p (toString (date d) @ asc ''T'' @ toString (startTime d)) = None \<or>
           dateParse p (toString (date d) @ asc ''T'' @ toString (endTime d)) = None"
  shows "isInvalidScheduleError (message (generateCalendarLink p d isManual w))
       \<and> generateCalendarLink p d True w = generateCalendarLink p d False w
       \<and> calendarLink (generateCalendarLink p d isManual w) = calendarLink w
       \<and> emitted w (generateCalendarLink p d isManual w) =
           [SetMessage (message (generateCalendarLink p d isManual w))]"
proof -
  from assms have invalid: "\<not> passesValidation p d"
    by (auto simp: passesValidation_def)
  show ?thesis
    by (simp add: generateCalendarLink_invalid [OF invalid] setMessage_def emitted_def
        isInvalidScheduleError_def)
qed

lemma initial_date_empty: "\<not> truthy (date initialFormData)"
  by (simp add: initialFormData_def truthy_def)

lemma badDate_unparseable:
  "dateParse (taipeiBrowser (Response []))
     (toString (date badDate) @ asc ''T'' @ toString (startTime badDate)) = None"
  by code_simp

theorem invalid_schedule_is_rejected_witness:
  "\<not> truthy (date initialFormData)
   \<and> message (generateCalendarLink (taipeiBrowser (Response [])) initialFormData True worldWithLink)
       = Some \<lparr>text = msg_required_fields, isError = True\<rparr>
   \<and> calendarLink (generateCalendarLink (taipeiBrowser (Response [])) initialFormData True worldWithLink)
       = oldLink
   \<and> isInvalidScheduleError
        (message (generateCalendarLink (taipeiBrowser (Response [])) badDate False worldWithLink))
   \<and> calendarLink (generateCalendarLink (taipeiBrowser (Response [])) badDate False worldWithLink)
       = oldLink"
proof -
  have a: "\<not> truthy (date initialFormData) \<or> \<not> truthy (startTime initialFormData) \<or>
      \<not> truthy (endTime initialFormData) \<or>
      dateParse (taipeiBrowser (Response []))
        (toString (date initialFormData) @ asc ''T'' @ toString (startTime initialFormData)) = None \<or>
      dateParse (taipeiBrowser (Response []))
        (toString (date initialFormData) @ asc ''T'' @ toString (endTime initialFormData)) = None"
    using initial_date_empty by blast
  have b: "\<not> truthy (date badDate) \<or> \<not> truthy (startTime badDate) \<or>
      \<not> truthy (endTime badDate) \<or>
      dateParse (taipeiBrowser (Response []))
        (toString (date badDate) @ asc ''T'' @ toString (startTime badDate)) = None \<or>
      dateParse (taipeiBrowser (Response []))
        (toString (date badDate) @ asc ''T'' @ toString (endTime badDate)) = None"
    using badDate_unparseable by blast
  have link: "calendarLink worldWithLink = oldLink"
    by (simp add: worldWithLink_def initialWorld_def)
  have first: "message (generateCalendarLink (taipeiBrowser (Response [])) initialFormData True worldWithLink)
       = Some \<lparr>text = msg_required_fields, isError = True\<rparr>"
    using initial_date_empty by (simp add: generateCalendarLink_def setMessage_def)
  from invalid_schedule_is_rejected [OF a, of True worldWithLink]
  have c1: "calendarLink (generateCalendarLink (taipeiBrowser (Response [])) initialFormData True
      worldWithLink) = calendarLink worldWithLink"
    by blast
  from invalid_schedule_is_rejected [OF b, of False worldWithLink]
  have c2: "isInvalidScheduleError
        (message (generateCalendarLink (taipeiBrowser (Response [])) badDate False worldWithLink))"
    and c3: "calendarLink (generateCalendarLink (taipeiBrowser (Response [])) badDate False
      worldWithLink) = calendarLink worldWithLink"
    by blast+
  from initial_date_empty first c1 c2 c3 show ?thesis
    unfolding link by blast
qed

section \<open>Extraction and the form record\<close>




section \<open>Selecting files\<close>

lemma fold_revoke:
  "fold revokeObjectURL us w = w\<lparr>trace := trace w @ map RevokeObjectURL us\<rparr>"
  by (induction us arbitrary: w) (simp_all add: revokeObjectURL_def)

lemma createObjectURLs_eq:
  "createObjectURLs fs w =
     (map BlobUrl [nextObjectUrl w ..< nextObjectUrl w + length fs],
      w\<lparr>nextObjectUrl := nextObjectUrl w + length fs,
        trace := trace w @
          map (\<lambda>(f, u). CreateObjectURL f u)
            (zip fs (map BlobUrl [nextObjectUrl w ..< nextObjectUrl w + length fs]))\<rparr>)"
proof (induction fs arbitrary: w)
  case Nil
  show ?case by simp
next
  case (Cons f fs)
  have upt: "[nextObjectUrl w ..< nextObjectUrl w + length (f # fs)] =
      nextObjectUrl w # [Suc (nextObjectUrl w) ..< Suc (nextObjectUrl w) + length fs]"
    by (subst upt_rec) simp
  show ?case
    unfolding upt by (simp add: Cons.IH createObjectURL_def)
qed

lemma handleFileChange_eq:
  "handleFileChange targetFiles w =
     w\<lparr>selectedFiles := filesOf targetFiles,
       imagePreviews :=
         map BlobUrl [nextObjectUrl w ..< nextObjectUrl w + length (filesOf targetFiles)],
       message := None,
       calendarLink := [],
       nextObjectUrl := nextObjectUrl w + length (filesOf targetFiles),
       trace := trace w @
         [SetMessage None, SetCalendarLink [], SetSelectedFiles (filesOf targetFiles)] @
         map RevokeObjectURL (imagePreviews w) @
         map (\<lambda>(f, u). CreateObjectURL f u)
           (zip (filesOf targetFiles)
              (map BlobUrl [nextObjectUrl w ..< nextObjectUrl w + length (filesOf targetFiles)])) @
         [SetImagePreviews
            (map BlobUrl [nextObjectUrl w ..< nextObjectUrl w + length (filesOf targetFiles)])]\<rparr>"
  by (cases "filesOf targetFiles = []")
     (simp_all add: handleFileChange_def Let_def fold_revoke createObjectURLs_eq
        setMessage_def setCalendarLink_def setSelectedFiles_def setImagePreviews_def)

lemma filter_isRevoke_creates:
  "filter isRevoke (map (\<lambda>(f, u). CreateObjectURL f u) xs) = []"
  by (induction xs) auto

lemma filter_isRevoke_revokes:
  "filter isRevoke (map RevokeObjectURL us) = map RevokeObjectURL us"
  by (induction us) auto

lemma filter_isCreate_revokes:
  "filter isCreate (map RevokeObjectURL us) = []"
  by (induction us) auto

text \<open>
  C8 (as stated, refuted): one file is selected, so there is one preview; selecting a
  file again releases that one preview twice, once in the handler and once more
  when the clean-up of the effect runs.
\<close>

theorem one_preview_is_released_twice:
  "imagePreviews worldWithFile = [BlobUrl 0]
   \<and> filter isRevoke (emitted worldWithFile (fileSelection (Some [screenshot]) worldWithFile))
       = [RevokeObjectURL (BlobUrl 0), RevokeObjectURL (BlobUrl 0)]"
proof -
  have previews: "imagePreviews worldWithFile = [BlobUrl 0]"
    by (simp add: worldWithFile_def fileSelection_def previewsCleanup_def fold_revoke
        handleFileChange_eq filesOf_def initialWorld_def)
  have "filter isRevoke (emitted worldWithFile (fileSelection (Some [screenshot]) worldWithFile))
       = [RevokeObjectURL (BlobUrl 0), RevokeObjectURL (BlobUrl 0)]"
    by (simp add: fileSelection_def previewsCleanup_def revokeObjectURL_def handleFileChange_eq
        filesOf_def emitted_def previews)
  with previews show ?thesis by simp
qed

text \<open>
  C8 (amended): for every prior state, with previews \<open>imagePreviews w\<close>, the handler of
  a file selection calls, in this order: the three setters, \<open>revokeObjectURL\<close> once
  for each prior preview, \<open>createObjectURL\<close> once for each new file, and
  \<open>setImagePreviews\<close>; so every prior preview is released before a new one is created,
  with as many release calls as there were previews. The render that follows runs the
  clean-up of the effect, which releases each prior preview once more: the selection
  makes twice as many release calls as there were previews.
\<close>

theorem selection_releases_prior_previews:
  "emitted w (handleFileChange targetFiles w) =
     [SetMessage None, SetCalendarLink [], SetSelectedFiles (filesOf targetFiles)] @
     map RevokeObjectURL (imagePreviews w) @
     map (\<lambda>(f, u). CreateObjectURL f u)
       (zip (filesOf targetFiles) (imagePreviews (handleFileChange targetFiles w))) @
     [SetImagePreviews (imagePreviews (handleFileChange targetFiles w))]
   \<and> length (imagePreviews (handleFileChange targetFiles w)) = length (filesOf targetFiles)
   \<and> length (filter isRevoke (emitted w (handleFileChange targetFiles w))) =
       length (imagePreviews w)
   \<and> emitted w (fileSelection targetFiles w) =
       emitted w (handleFileChange targetFiles w) @ map RevokeObjectURL (imagePreviews w)
   \<and> length (filter isRevoke (emitted w (fileSelection targetFiles w))) =
       2 * length (imagePreviews w)"
proof -
  let ?new = "map BlobUrl [nextObjectUrl w ..< nextObjectUrl w + length (filesOf targetFiles)]"
  let ?calls = "[SetMessage None, SetCalendarLink [], SetSelectedFiles (filesOf targetFiles)] @
     map RevokeObjectURL (imagePreviews w) @
     map (\<lambda>(f, u). CreateObjectURL f u) (zip (filesOf targetFiles) ?new) @
     [SetImagePreviews ?new]"
  have new: "imagePreviews (handleFileChange targetFiles w) = ?new"
    by (simp add: handleFileChange_eq)
  have trace_handler: "trace (handleFileChange targetFiles w) = trace w @ ?calls"
    by (simp add: handleFileChange_eq)
  have handler: "emitted w (handleFileChange targetFiles w) = ?calls"
    by (rule emitted_append) (rule trace_handler)
  have len: "length (imagePreviews (handleFileChange targetFiles w)) = length (filesOf targetFiles)"
    by (simp add: new)
  have count: "length (filter isRevoke (emitted w (handleFileChange targetFiles w))) =
       length (imagePreviews w)"
    unfolding handler by (simp add: filter_isRevoke_creates filter_isRevoke_revokes)
  have "trace (fileSelection targetFiles w) =
      trace w @ (?calls @ map RevokeObjectURL (imagePreviews w))"
    by (simp add: fileSelection_def previewsCleanup_def fold_revoke trace_handler)
  then have "emitted w (fileSelection targetFiles w) =
      ?calls @ map RevokeObjectURL (imagePreviews w)"
    by (rule emitted_append)
  then have whole: "emitted w (fileSelection targetFiles w) =
       emitted w (handleFileChange targetFiles w) @ map RevokeObjectURL (imagePreviews w)"
    by (simp only: handler)
  have total: "length (filter isRevoke (emitted w (fileSelection targetFiles w))) =
       2 * length (imagePreviews w)"
    unfolding whole using count by (simp add: filter_isRevoke_revokes)
  from handler [folded new] len count whole total show ?thesis by blast
qed

section \<open>Clearing the status message and the link\<close>

lemma begin_without_files:
  "selectedFiles w = [] \<Longrightarrow>
   processImages_begin w = (setMessage (Some \<lparr>text = msg_no_files, isError = True\<rparr>) w, False)"
  by (simp add: processImages_begin_def)

lemma begin_with_files:
  "selectedFiles w \<noteq> [] \<Longrightarrow>
   processImages_begin w = (setCalendarLink [] (setMessage None (setIsLoading True w)), True)"
  by (simp add: processImages_begin_def)

lemma oldLink_nonempty: "oldLink \<noteq> []"
  by (simp add: oldLink_def asc_def)

lemma manualSubmit_initial:
  "manualSubmit p worldWithLink =
     setMessage (Some \<lparr>text = msg_required_fields, isError = True\<rparr>) worldWithLink"
  using initial_date_empty
  by (simp add: manualSubmit_def generateCalendarLink_def worldWithLink_def initialWorld_def)

text \<open>
  C3 (as stated, refuted): a link was generated before; the form has no date. A manual
  submission leaves the old link in place and puts an error message, so neither of
  the two is cleared.
\<close>

theorem manual_submission_clears_nothing:
  "calendarLink worldWithLink = oldLink
   \<and> calendarLink (manualSubmit (taipeiBrowser (Response [])) worldWithLink) = oldLink
   \<and> oldLink \<noteq> []
   \<and> message (manualSubmit (taipeiBrowser (Response [])) worldWithLink)
       = Some \<lparr>text = msg_required_fields, isError = True\<rparr>
   \<and> emitted worldWithLink (manualSubmit (taipeiBrowser (Response [])) worldWithLink)
       = [SetMessage (Some \<lparr>text = msg_required_fields, isError = True\<rparr>)]"
  by (simp add: manualSubmit_initial setMessage_def emitted_def oldLink_nonempty)
     (simp add: worldWithLink_def initialWorld_def)

text \<open>
  C3 (amended): for every prior state, a file selection clears the status message and
  the generated link, and so does an automatic submission when it begins with at
  least one file selected. An automatic submission with no file selected only puts
  its error message and keeps the link. A manual submission clears nothing when it
  begins: it ends with a status message in every case, and with the link that was
  there before unless the record passes validation, in which case the link is the
  new one.
\<close>

theorem selection_and_started_submission_clear_status:
  "message (handleFileChange targetFiles w) = None
   \<and> calendarLink (handleFileChange targetFiles w) = []
   \<and> (if selectedFiles w = [] then
         fst (processImages_begin w) =
           setMessage (Some \<lparr>text = msg_no_files, isError = True\<rparr>) w \<and>
         calendarLink (fst (processImages_begin w)) = calendarLink w
       else
         message (fst (processImages_begin w)) = None \<and>
         calendarLink (fst (processImages_begin w)) = [])
   \<and> message (manualSubmit p w) \<noteq> None
   \<and> calendarLink (manualSubmit p w) =
       (if passesValidation p (formData w)
        then calendarUrl (formData w)
               (formatDateTime p (date (formData w)) (startTime (formData w)))
               (formatDateTime p (date (formData w)) (endTime (formData w)))
        else calendarLink w)"
proof -
  have selection: "message (handleFileChange targetFiles w) = None
      \<and> calendarLink (handleFileChange targetFiles w) = []"
    by (simp add: handleFileChange_eq)
  have start: "(if selectedFiles w = [] then
         fst (processImages_begin w) =
           setMessage (Some \<lparr>text = msg_no_files, isError = True\<rparr>) w \<and>
         calendarLink (fst (processImages_begin w)) = calendarLink w
       else
         message (fst (processImages_begin w)) = None \<and>
         calendarLink (fst (processImages_begin w)) = [])"
    by (simp add: begin_without_files begin_with_files setter_defs)
  have manual_message: "message (manualSubmit p w) \<noteq> None"
    by (simp add: manualSubmit_def generateCalendarLink_message)
  have manual_link: "calendarLink (manualSubmit p w) =
       (if passesValidation p (formData w)
        then calendarUrl (formData w)
               (formatDateTime p (date (formData w)) (startTime (formData w)))
               (formatDateTime p (date (formData w)) (endTime (formData w)))
        else calendarLink w)"
    by (simp add: manualSubmit_def generateCalendarLink_invalid generateCalendarLink_valid
        setter_defs)
  from selection start manual_message manual_link show ?thesis by blast
qed

lemma worldWithFile_files: "selectedFiles worldWithFile = [screenshot]"
  by (simp add: worldWithFile_def fileSelection_def previewsCleanup_def fold_revoke
      handleFileChange_eq filesOf_def initialWorld_def)

theorem selection_and_started_submission_clear_status_witness:
  "selectedFiles worldWithFile \<noteq> []
   \<and> message (fst (processImages_begin worldWithFile)) = None
   \<and> calendarLink (fst (processImages_begin worldWithFile)) = []
   \<and> selectedFiles worldWithLink = []
   \<and> calendarLink (fst (processImages_begin worldWithLink)) = oldLink"
proof -
  have a: "selectedFiles worldWithFile \<noteq> []"
    by (simp add: worldWithFile_files)
  have b: "selectedFiles worldWithLink = []"
    by (simp add: worldWithLink_def initialWorld_def)
  have c: "calendarLink worldWithLink = oldLink"
    by (simp add: worldWithLink_def initialWorld_def)
  from selection_and_started_submission_clear_status
         [of "Some [screenshot]" worldWithFile "taipeiBrowser (Response [])"] a
  have d: "message (fst (processImages_begin worldWithFile)) = None
      \<and> calendarLink (fst (processImages_begin worldWithFile)) = []"
    by simp
  from selection_and_started_submission_clear_status
         [of "Some [screenshot]" worldWithLink "taipeiBrowser (Response [])"] b
  have e: "calendarLink (fst (processImages_begin worldWithLink)) = calendarLink worldWithLink"
    by (simp add: setMessage_def)
  from a b d e show ?thesis unfolding c by blast
qed

section \<open>The submission lifecycle\<close>

lemma settle_trace:
  "\<exists>evs. trace (processImages_settle p files w) = trace w @ evs @ [SetIsLoading False]
       \<and> length (filter isStatusSet evs) = 1 \<and> filter isLoadingSet evs = []"
proof (cases "extraction p files")
  case (Inl e)
  then have "trace (processImages_settle p files w) =
      trace w @ [SetMessage (Some \<lparr>text = msg_auto_failed_prefix @
                  (case e of JsError m \<Rightarrow> m | NotAnError \<Rightarrow> msg_unknown_error) @
                  msg_auto_failed_suffix, isError = True\<rparr>)] @ [SetIsLoading False]"
    by (simp add: processImages_settle_def processImages_catch_def setter_defs Let_def)
  then show ?thesis by force
next
  case (Inr extractedData)
  let ?v = "setFormData extractedData w"
  obtain evs where evs: "trace (generateCalendarLink p extractedData False ?v) = trace ?v @ evs"
    using generateCalendarLink_trace by blast
  then have em: "emitted ?v (generateCalendarLink p extractedData False ?v) = evs"
    by (rule emitted_append)
  have one: "length (filter isStatusSet evs) = 1"
    using generateCalendarLink_status_count [of ?v p extractedData False] by (simp add: em)
  have none: "filter isLoadingSet evs = []"
    using generateCalendarLink_no_loading [of ?v p extractedData False] by (simp add: em)
  have "trace (processImages_settle p files w) =
      trace w @ (SetFormData extractedData # evs) @ [SetIsLoading False]"
    using Inr evs by (simp add: processImages_settle_def setter_defs)
  with one none show ?thesis
    by (intro exI [of _ "SetFormData extractedData # evs"]) simp
qed

lemma settle_idle: "isLoading (processImages_settle p files w) = False"
  by (simp add: processImages_settle_def setIsLoading_def)

text \<open>
  C9 (as stated, refuted): with no file selected, an automatic submission in the idle
  state puts its error message and stays idle; \<open>setIsLoading\<close> is not called.
\<close>

theorem submission_without_files_stays_idle:
  "selectedFiles initialWorld = []
   \<and> phase initialWorld = Idle
   \<and> emitted initialWorld (handleProcessImages (taipeiBrowser (Response [])) initialWorld)
       = [SetMessage (Some \<lparr>text = msg_no_files, isError = True\<rparr>)]
   \<and> phase (handleProcessImages (taipeiBrowser (Response [])) initialWorld) = Idle"
  by (simp add: handleProcessImages_def processImages_begin_def setMessage_def emitted_def
      phase_def initialWorld_def)

text \<open>
  C9 (amended): an automatic submission with at least one file selected puts the form
  into the extracting phase (the trigger is disabled) without a status message; with
  no file selected it puts one error message and the phase stays as it was. When the
  awaited calls settle, in whatever state the form is by then and whether they
  succeeded or failed, the handler sets exactly one status message and, as its last
  call, \<open>setIsLoading(false)\<close>: the form is idle again and the trigger enabled. A
  manual submission never calls \<open>setIsLoading\<close> and leaves the phase as it was.
\<close>

theorem submission_lifecycle:
  "(if selectedFiles w = [] then
      emitted w (handleProcessImages p w) =
        [SetMessage (Some \<lparr>text = msg_no_files, isError = True\<rparr>)] \<and>
      phase (handleProcessImages p w) = phase w
    else
      snd (processImages_begin w) \<and>
      phase (fst (processImages_begin w)) = Extracting \<and>
      emitted w (fst (processImages_begin w)) =
        [SetIsLoading True, SetMessage None, SetCalendarLink []] \<and>
      handleProcessImages p w = processImages_settle p (selectedFiles w) (fst (processImages_begin w)))
   \<and> phase (processImages_settle p files w') = Idle
   \<and> length (filter isStatusSet (emitted w' (processImages_settle p files w'))) = 1
   \<and> filter isLoadingSet (emitted w' (processImages_settle p files w')) = [SetIsLoading False]
   \<and> last (emitted w' (processImages_settle p files w')) = SetIsLoading False
   \<and> phase (manualSubmit p w) = phase w
   \<and> filter isLoadingSet (emitted w (manualSubmit p w)) = []"
proof -
  have start: "(if selectedFiles w = [] then
      emitted w (handleProcessImages p w) =
        [SetMessage (Some \<lparr>text = msg_no_files, isError = True\<rparr>)] \<and>
      phase (handleProcessImages p w) = phase w
    else
      snd (processImages_begin w) \<and>
      phase (fst (processImages_begin w)) = Extracting \<and>
      emitted w (fst (processImages_begin w)) =
        [SetIsLoading True, SetMessage None, SetCalendarLink []] \<and>
      handleProcessImages p w = processImages_settle p (selectedFiles w) (fst (processImages_begin w)))"
    by (simp add: handleProcessImages_def begin_without_files begin_with_files setter_defs
        emitted_def phase_def)
  obtain evs where evs: "trace (processImages_settle p files w') = trace w' @ evs @ [SetIsLoading False]"
    and one: "length (filter isStatusSet evs) = 1" and none: "filter isLoadingSet evs = []"
    using settle_trace by blast
  from evs have em: "emitted w' (processImages_settle p files w') = evs @ [SetIsLoading False]"
    by (rule emitted_append)
  have idle: "phase (processImages_settle p files w') = Idle"
    by (simp add: phase_def settle_idle)
  have count: "length (filter isStatusSet (emitted w' (processImages_settle p files w'))) = 1"
    unfolding em using one by simp
  have loading: "filter isLoadingSet (emitted w' (processImages_settle p files w')) = [SetIsLoading False]"
    unfolding em using none by simp
  have final: "last (emitted w' (processImages_settle p files w')) = SetIsLoading False"
    unfolding em by simp
  have manual: "phase (manualSubmit p w) = phase w"
    by (simp add: phase_def manualSubmit_def)
  have manual_calls: "filter isLoadingSet (emitted w (manualSubmit p w)) = []"
    by (simp add: manualSubmit_def generateCalendarLink_no_loading)
  from start idle count loading final manual manual_calls show ?thesis by blast
qed

theorem submission_lifecycle_witness:
  "selectedFiles worldWithFile \<noteq> []
   \<and> phase worldWithFile = Idle
   \<and> phase (fst (processImages_begin worldWithFile)) = Extracting
   \<and> phase (handleProcessImages (taipeiBrowser (Response morningBody)) worldWithFile) = Idle
   \<and> length (filter isStatusSet
        (emitted (fst (processImages_begin worldWithFile))
           (handleProcessImages (taipeiBrowser (Response morningBody)) worldWithFile))) = 1"
proof -
  have a: "selectedFiles worldWithFile \<noteq> []"
    by (simp add: worldWithFile_files)
  have idle: "phase worldWithFile = Idle"
    by (simp add: phase_def worldWithFile_def fileSelection_def previewsCleanup_def fold_revoke
        handleFileChange_eq initialWorld_def)
  note l = submission_lifecycle [of worldWithFile "taipeiBrowser (Response morningBody)"
      "selectedFiles worldWithFile" "fst (processImages_begin worldWithFile)"]
  from l a have run: "handleProcessImages (taipeiBrowser (Response morningBody)) worldWithFile =
      processImages_settle (taipeiBrowser (Response morningBody)) (selectedFiles worldWithFile)
        (fst (processImages_begin worldWithFile))"
    by simp
  from l a have ext: "phase (fst (processImages_begin worldWithFile)) = Extracting"
    by simp
  from l have returned: "phase (processImages_settle (taipeiBrowser (Response morningBody))
        (selectedFiles worldWithFile) (fst (processImages_begin worldWithFile))) = Idle"
    and one: "length (filter isStatusSet
        (emitted (fst (processImages_begin worldWithFile))
           (processImages_settle (taipeiBrowser (Response morningBody))
              (selectedFiles worldWithFile) (fst (processImages_begin worldWithFile))))) = 1"
    by blast+
  from a idle ext returned one show ?thesis unfolding run by blast
qed

section \<open>Reading the parameters of a generated link\<close>

lemma hexDigit_table:
  "list_all (\<lambda>n. urlencodedKeeps (hexDigit n) \<and> hexValue (hexDigit n) = Some n) [0..<16]"
  by code_simp

lemma hexDigit_kept: "n < 16 \<Longrightarrow> urlencodedKeeps (hexDigit n)"
  using hexDigit_table by (simp add: list_all_iff)

lemma hexValue_hexDigit: "n < 16 \<Longrightarrow> hexValue (hexDigit n) = Some n"
  using hexDigit_table by (simp add: list_all_iff)

lemma byte_halves: "unat (b :: 8 word) div 16 < 16" "unat b mod 16 < 16"
proof -
  have "unat b < 256" using unsigned_less [of b, where 'a = nat] by simp
  then show "unat b div 16 < 16" by simp
  show "unat b mod 16 < 16" by simp
qed

lemma urlencodeByte_output: "c \<in> set (urlencodeByte b) \<Longrightarrow> isUrlencodedOutput c"
  by (auto simp: urlencodeByte_def isUrlencodedOutput_def hexDigit_kept byte_halves
      split: if_splits)

lemma urlencode_output: "c \<in> set (urlencode s) \<Longrightarrow> isUrlencodedOutput c"
  by (auto simp: urlencode_def dest: urlencodeByte_output)

lemma kept_below: "urlencodedKeeps b \<Longrightarrow> b \<le> 0x7A"
  unfolding urlencodedKeeps_def by (elim disjE conjE) (simp_all, unat_arith+)


lemma output_not_separator:
  assumes "isUrlencodedOutput c"
  shows "c \<noteq> 0x26" "c \<noteq> 0x3D" "c \<noteq> 0x23"
  using assms by (auto simp: isUrlencodedOutput_def urlencodedKeeps_def)

lemma output_ascii:
  assumes "isUrlencodedOutput c"
  shows "c < 0x80"
proof -
  from assms consider "c = 0x2B" | "c = 0x25" | "urlencodedKeeps c"
    by (auto simp: isUrlencodedOutput_def)
  then show ?thesis
  proof cases
    case 3
    then have "c \<le> 0x7A" by (rule kept_below)
    then show ?thesis by unat_arith
  qed simp_all
qed

lemma percentDecode_plain:
  "b \<noteq> 0x25 \<Longrightarrow> percentDecode (b # bs) = b # percentDecode bs"
  by (cases bs rule: percentDecode.cases) auto

lemma percentDecode_escape:
  "hexValue h = Some x \<Longrightarrow> hexValue l = Some y \<Longrightarrow>
   percentDecode (0x25 # h # l # bs) = of_nat (16 * x + y) # percentDecode bs"
  by simp

lemma kept_not_special: "urlencodedKeeps b \<Longrightarrow> b \<noteq> 0x25 \<and> b \<noteq> 0x2B"
  by (auto simp: urlencodedKeeps_def)


lemma decode_encoded_byte:
  "percentDecode (plusToSpace (urlencodeByte b @ rest)) = b # percentDecode (plusToSpace rest)"
proof -
  consider (space) "b = 0x20" | (kept) "b \<noteq> 0x20" "urlencodedKeeps b"
    | (escaped) "b \<noteq> 0x20" "\<not> urlencodedKeeps b"
    by blast
  then show ?thesis
  proof cases
    case space
    then show ?thesis
      by (simp add: urlencodeByte_def plusToSpace_def percentDecode_plain)
  next
    case kept
    then show ?thesis
      using kept_not_special [of b]
      by (simp add: urlencodeByte_def plusToSpace_def percentDecode_plain)
  next
    case escaped
    let ?h = "hexDigit (unat b div 16)" and ?l = "hexDigit (unat b mod 16)"
    have h: "hexValue ?h = Some (unat b div 16)" and l: "hexValue ?l = Some (unat b mod 16)"
      by (simp_all add: hexValue_hexDigit byte_halves)
    have "?h \<noteq> 0x2B" "?l \<noteq> 0x2B"
      using kept_not_special [OF hexDigit_kept [OF byte_halves(1) [of b]]]
            kept_not_special [OF hexDigit_kept [OF byte_halves(2) [of b]]] by simp_all
    then have "plusToSpace (urlencodeByte b @ rest) = 0x25 # ?h # ?l # plusToSpace rest"
      using escaped by (simp add: urlencodeByte_def plusToSpace_def)
    then show ?thesis
      by (simp only: percentDecode_escape [OF h l]) simp
  qed
qed

lemma decode_urlencode_bytes:
  "percentDecode (plusToSpace (concat (map urlencodeByte bs))) = bs"
proof (induction bs)
  case Nil
  show ?case by (simp add: plusToSpace_def)
next
  case (Cons b bs)
  show ?case using decode_encoded_byte [of b "concat (map urlencodeByte bs)"] Cons by simp
qed

lemma decode_urlencode: "percentDecode (plusToSpace (urlencode s)) = utf8_encode s"
  by (simp add: urlencode_def decode_urlencode_bytes)


lemma splitOn_without: "sep \<notin> set xs \<Longrightarrow> splitOn sep xs = [xs]"
  by (induction xs) auto

lemma splitOn_append:
  "sep \<notin> set xs \<Longrightarrow> splitOn sep (xs @ sep # ys) = xs # splitOn sep ys"
  by (induction xs) auto

lemma splitOn_join:
  "\<forall>x \<in> set xs. sep \<notin> set x \<Longrightarrow> xs \<noteq> [] \<Longrightarrow> splitOn sep (join [sep] xs) = xs"
proof (induction xs)
  case Nil
  then show ?case by simp
next
  case (Cons x xs)
  show ?case
  proof (cases xs)
    case Nil
    with Cons.prems show ?thesis by (simp add: splitOn_without)
  next
    case (Cons y ys)
    with Cons.prems Cons.IH show ?thesis by (simp add: splitOn_append)
  qed
qed

lemma set_join: "c \<in> set (join sep xs) \<Longrightarrow> c \<in> set sep \<or> (\<exists>x \<in> set xs. c \<in> set x)"
proof (induction xs)
  case Nil
  then show ?case by simp
next
  case (Cons x xs)
  then show ?case by (cases xs) auto
qed

lemma takeWhile_until: "x \<notin> set xs \<Longrightarrow> takeWhile (\<lambda>b. b \<noteq> x) (xs @ x # ys) = xs"
  by (induction xs) auto

lemma parsePair_encoded:
  "parsePair (urlencode k @ 0x3D # urlencode v) = (utf8_encode k, utf8_encode v)"
proof -
  have "0x3D \<notin> set (urlencode k)"
    using urlencode_output output_not_separator(2) by blast
  then have "takeWhile (\<lambda>b. b \<noteq> 0x3D) (urlencode k @ 0x3D # urlencode v) = urlencode k"
    by (rule takeWhile_until)
  then show ?thesis
    by (simp add: parsePair_def decode_urlencode)
qed

lemma urlencodedParse_serialize:
  "urlencodedParse (urlencodedSerialize params) =
     map (\<lambda>(k, v). (utf8_encode k, utf8_encode v)) params"
proof (cases "params = []")
  case True
  then show ?thesis by (simp add: urlencodedParse_def urlencodedSerialize_def)
next
  case False
  let ?pieces = "map (\<lambda>(k, v). urlencode k @ 0x3D # urlencode v) params"
  have no_amp: "\<forall>x \<in> set ?pieces. 0x26 \<notin> set x"
    using urlencode_output output_not_separator(1) by fastforce
  have nonempty: "filter (\<lambda>piece. piece \<noteq> []) ?pieces = ?pieces"
    by (induction params) auto
  have "splitOn 0x26 (join [0x26] ?pieces) = ?pieces"
    using no_amp False by (intro splitOn_join) simp_all
  then have "urlencodedParse (urlencodedSerialize params) = map parsePair ?pieces"
    by (simp add: urlencodedParse_def urlencodedSerialize_def nonempty)
  also have "\<dots> = map (\<lambda>(k, v). (utf8_encode k, utf8_encode v)) params"
    by (induction params) (auto simp: parsePair_encoded)
  finally show ?thesis .
qed

lemma serialize_output:
  assumes "c \<in> set (urlencodedSerialize params)"
  shows "isUrlencodedOutput c \<or> c = 0x26 \<or> c = 0x3D"
proof -
  from assms have "c \<in> set [0x26] \<or>
      (\<exists>x \<in> set (map (\<lambda>(k, v). urlencode k @ [0x3D] @ urlencode v) params). c \<in> set x)"
    unfolding urlencodedSerialize_def by (rule set_join)
  then show ?thesis using urlencode_output by auto
qed

lemma serialize_ascii: "c \<in> set (urlencodedSerialize params) \<Longrightarrow> c < 0x80"
  using serialize_output [of c params] output_ascii [of c] by auto

lemma serialize_no_hash: "0x23 \<notin> set (urlencodedSerialize params)"
proof
  assume "0x23 \<in> set (urlencodedSerialize params)"
  then have "isUrlencodedOutput 0x23 \<or> (0x23 :: 8 word) = 0x26 \<or> (0x23 :: 8 word) = 0x3D"
    by (rule serialize_output)
  then show False by (auto dest: output_not_separator(3))
qed


lemma unat_widen: "unat (ucast (b :: 8 word) :: 16 word) = unat b"
proof -
  have "unat b < 2 ^ 16"
    using unsigned_less [of b, where 'a = nat] by simp
  then show ?thesis
    by (simp add: unsigned_ucast_eq take_bit_nat_eq_self)
qed

lemma utf8_encode_Cons:
  "\<not> isHighSurrogate c \<Longrightarrow>
   utf8_encode (c # cs) = utf8_codepoint (scalarValue c) @ utf8_encode cs"
  by (cases cs) simp_all

lemma utf8_widened:
  assumes "b < 0x80"
  shows "utf8_encode (ucast b # cs) = b # utf8_encode cs"
proof -
  let ?c = "ucast b :: 16 word"
  from assms have small: "unat b < 0x80" by unat_arith
  then have c: "unat ?c < 0x80" by (simp add: unat_widen)
  then have "\<not> isHighSurrogate ?c" "\<not> isLowSurrogate ?c"
    by (simp_all add: isHighSurrogate_def isLowSurrogate_def word_le_nat_alt)
  then have "utf8_encode (?c # cs) = utf8_codepoint (unat ?c) @ utf8_encode cs"
    by (simp add: utf8_encode_Cons scalarValue_def)
  also have "utf8_codepoint (unat ?c) = [b]"
    using small by (simp add: utf8_codepoint_def unat_widen)
  finally show ?thesis by simp
qed

lemma utf8_encode_widened:
  "\<forall>b \<in> set bs. b < 0x80 \<Longrightarrow> utf8_encode (map ucast bs) = bs"
  by (induction bs) (simp_all add: utf8_widened)

lemma utf8_encode_toString:
  "utf8_encode (URLSearchParams_toString params) = urlencodedSerialize params"
  unfolding URLSearchParams_toString_def
  by (rule utf8_encode_widened) (simp add: serialize_ascii)

lemma queryOf_render:
  "queryOf (asc ''https://www.google.com/calendar/render?'' @ URLSearchParams_toString params) =
     URLSearchParams_toString params"
proof -
  have "0x23 \<notin> set (URLSearchParams_toString params)"
  proof
    assume "0x23 \<in> set (URLSearchParams_toString params)"
    then obtain b where b: "b \<in> set (urlencodedSerialize params)" "(ucast b :: 16 word) = 0x23"
      by (auto simp: URLSearchParams_toString_def)
    from b(1) have "b < 0x80" by (rule serialize_ascii)
    from b(2) have "unat (ucast b :: 16 word) = 0x23" by simp
    then have "unat b = 0x23" by (simp add: unat_widen)
    then have "b = 0x23" by unat_arith
    with b(1) serialize_no_hash show False by blast
  qed
  then have "takeWhile (\<lambda>c. c \<noteq> 0x23) (URLSearchParams_toString params) =
      URLSearchParams_toString params"
    by (auto simp: takeWhile_eq_all_conv)
  then show ?thesis
    by (simp add: queryOf_def asc_def)
qed

lemma searchParam_render:
  "searchParam (asc ''https://www.google.com/calendar/render?'' @ URLSearchParams_toString params) key =
     map_of (map (\<lambda>(k, v). (utf8_encode k, utf8_encode v)) params) (utf8_encode key)"
  by (simp add: searchParam_def queryOf_render utf8_encode_toString urlencodedParse_serialize)

lemma calendarLink_valid:
  assumes "passesValidation p d"
  shows "calendarLink (generateCalendarLink p d isManual w) =
           calendarUrl d (formatDateTime p (date d) (startTime d))
                         (formatDateTime p (date d) (endTime d))"
  by (simp add: generateCalendarLink_valid [OF assms] setter_defs)

lemma key_bytes:
  "utf8_encode (asc ''action'') = [0x61, 0x63, 0x74, 0x69, 0x6F, 0x6E]"
  "utf8_encode (asc ''text'') = [0x74, 0x65, 0x78, 0x74]"
  "utf8_encode (asc ''dates'') = [0x64, 0x61, 0x74, 0x65, 0x73]"
  by code_simp+

lemma searchParam_text:
  "searchParam (calendarUrl d start end) (asc ''text'') = Some (utf8_encode (eventTitle d))"
  by (simp add: calendarUrl_def searchParam_render calendarParams_def key_bytes)

lemma searchParam_dates:
  "searchParam (calendarUrl d start end) (asc ''dates'') =
     Some (utf8_encode (toString start @ asc ''/'' @ toString end))"
  by (simp add: calendarUrl_def searchParam_render calendarParams_def key_bytes)

lemma title_prefix_bytes:
  "utf8_encode (title_prefix @ s) =
     [0xE3, 0x80, 0x90, 0xE6, 0xB8, 0x85, 0xE6, 0xBD, 0x94, 0xE6, 0x8E, 0x92, 0xE7, 0x8F, 0xAD,
      0xE3, 0x80, 0x91] @ utf8_encode s"
proof -
  have last: "utf8_encode (0x3011 # s) = [0xE3, 0x80, 0x91] @ utf8_encode s"
    by (subst utf8_encode_Cons)
       (simp_all add: isHighSurrogate_def isLowSurrogate_def scalarValue_def utf8_codepoint_def)
  have "utf8_encode (title_prefix @ s) =
      utf8_encode (0x3010 # 0x6E05 # 0x6F54 # 0x6392 # 0x73ED # 0x3011 # s)"
    by (simp add: title_prefix_def)
  also have "\<dots> = [0xE3, 0x80, 0x90, 0xE6, 0xB8, 0x85, 0xE6, 0xBD, 0x94, 0xE6, 0x8E, 0x92,
      0xE7, 0x8F, 0xAD] @ utf8_encode (0x3011 # s)"
    by (simp add: isHighSurrogate_def isLowSurrogate_def scalarValue_def utf8_codepoint_def)
  finally show ?thesis by (simp add: last)
qed

text \<open>
  C10: for every record that passes validation, in manual and in automatic mode, the
  \<open>text\<close> parameter of the generated link is the prefix followed by the joined title,
  or by the fallback literal when area, name and phone are all empty. The value is
  given as \<open>URLSearchParams\<close> reads it back from the link, in UTF-8: the bytes of the
  prefix, then the bytes of the rest.
\<close>

theorem text_parameter_begins_with_prefix:
  assumes "passesValidation p d"
  shows "searchParam (calendarLink (generateCalendarLink p d isManual w)) (asc ''text'') =
           Some (utf8_encode title_prefix @
                 utf8_encode (if truthy (area d) \<or> truthy (name d) \<or> truthy (phone d)
                              then titleParts d else title_fallback))
       \<and> utf8_encode title_prefix =
           [0xE3, 0x80, 0x90, 0xE6, 0xB8, 0x85, 0xE6, 0xBD, 0x94, 0xE6, 0x8E, 0x92, 0xE7, 0x8F,
            0xAD, 0xE3, 0x80, 0x91]"
proof -
  have prefix: "utf8_encode title_prefix =
      [0xE3, 0x80, 0x90, 0xE6, 0xB8, 0x85, 0xE6, 0xBD, 0x94, 0xE6, 0x8E, 0x92, 0xE7, 0x8F,
       0xAD, 0xE3, 0x80, 0x91]"
    using title_prefix_bytes [of "[]"] by simp
  have "eventTitle d = title_prefix @
      (if truthy (area d) \<or> truthy (name d) \<or> truthy (phone d) then titleParts d
       else title_fallback)"
    using titleParts_empty_iff [of d] by (simp add: eventTitle_def)
  then have "utf8_encode (eventTitle d) = utf8_encode title_prefix @
      utf8_encode (if truthy (area d) \<or> truthy (name d) \<or> truthy (phone d) then titleParts d
                   else title_fallback)"
    by (simp only: title_prefix_bytes prefix)
  then show ?thesis
    by (simp add: calendarLink_valid [OF assms] searchParam_text prefix)
qed

lemma morning_passes: "passesValidation (taipeiBrowser (Response [])) morningObject"
  by code_simp

theorem text_parameter_begins_with_prefix_witness:
  "passesValidation (taipeiBrowser (Response [])) morningObject
   \<and> searchParam (calendarLink passingWorld) (asc ''text'') =
       Some ([0xE3, 0x80, 0x90, 0xE6, 0xB8, 0x85, 0xE6, 0xBD, 0x94, 0xE6, 0x8E, 0x92, 0xE7, 0x8F,
              0xAD, 0xE3, 0x80, 0x91] @ utf8_encode title_fallback)"
proof -
  have none: "\<not> (truthy (area morningObject) \<or> truthy (name morningObject) \<or>
      truthy (phone morningObject))"
    by (simp add: morningObject_def emptyObject_def truthy_def)
  from text_parameter_begins_with_prefix [OF morning_passes, of False initialWorld] none
  show ?thesis
    using morning_passes by (simp add: passingWorld_def)
qed

end
